theory Spec2Isabelle
  imports Main "HOL-Library.Char_ord" "HOL-Library.List_Lexorder" "HOL-Library.Product_Lexorder"
begin

section \<open>Python values and exceptions\<close>

text \<open>
  The payload of the literature search is whatever \<^verbatim>\<open>response.json()\<close> returns, and
  \<^verbatim>\<open>analyze_research_data\<close> walks it with \<^verbatim>\<open>.get\<close>, truth tests, slicing and
  iteration, each of which raises on a value of the wrong shape. The payload is therefore
  a value of the interpreter, not a typed record:
  \<^item> \<open>PNone\<close>, \<open>PBool\<close>, \<open>PInt\<close> (unbounded), \<open>PStr\<close>, \<open>PList\<close> and \<open>PDict\<close> (string keys, in
    insertion order; lookup takes the first entry of a key).
  \<^item> A \<open>PStr\<close> holds the UTF-8 encoding of the Python string: equality, emptiness,
    concatenation and the ordering by code point are those of the byte strings.
  \<^item> JSON numbers with a fraction or an exponent (Python floats) are outside the model.
\<close>

datatype pyval =
    PNone
  | PBool bool
  | PInt int
  | PStr string
  | PList "pyval list"
  | PDict "(string \<times> pyval) list"

text \<open>
  Exceptions. \<open>Exception m\<close> is the plain \<^verbatim>\<open>Exception(m)\<close> the source raises itself;
  \<open>TypeError\<close>, \<open>AttributeError\<close>, \<open>ValueError\<close> and \<open>KeyError\<close> are raised by the interpreter
  (their wording differs between interpreter versions and is not modelled); \<open>Foreign m\<close>
  is an exception raised inside a library the source calls (HTTP client, JSON decoder,
  plotting backend), of whatever class, with \<open>m\<close> its \<^verbatim>\<open>str()\<close>.
\<close>

datatype exn =
    Exception string
  | TypeError
  | AttributeError
  | ValueError
  | KeyError
  | Foreign string

text \<open>Sequencing of statements that may raise: the first exception ends the computation.\<close>

definition bind_exn :: "exn + 'a \<Rightarrow> ('a \<Rightarrow> exn + 'b) \<Rightarrow> exn + 'b" where
  "bind_exn m f = (case m of Inl e \<Rightarrow> Inl e | Inr x \<Rightarrow> f x)"

text \<open>The outcome of a call into a library: its result, or the exception it raised.\<close>

definition raised :: "string + 'a \<Rightarrow> exn + 'a" where
  "raised r = (case r of Inl m \<Rightarrow> Inl (Foreign m) | Inr x \<Rightarrow> Inr x)"

text \<open>A comprehension or loop body that may raise, run over a list from left to right.\<close>

fun map_exn :: "('a \<Rightarrow> exn + 'b) \<Rightarrow> 'a list \<Rightarrow> exn + 'b list" where
  "map_exn f [] = Inr []"
| "map_exn f (x # xs) =
     bind_exn (f x) (\<lambda>y. bind_exn (map_exn f xs) (\<lambda>ys. Inr (y # ys)))"

text \<open>\<^verbatim>\<open>d.get(k, default)\<close>: only a dict has the method.\<close>

fun py_get :: "pyval \<Rightarrow> string \<Rightarrow> pyval \<Rightarrow> exn + pyval" where
  "py_get (PDict kvs) k d = Inr (case map_of kvs k of Some v \<Rightarrow> v | None \<Rightarrow> d)"
| "py_get PNone k d = Inl AttributeError"
| "py_get (PBool b) k d = Inl AttributeError"
| "py_get (PInt i) k d = Inl AttributeError"
| "py_get (PStr s) k d = Inl AttributeError"
| "py_get (PList xs) k d = Inl AttributeError"

text \<open>\<^verbatim>\<open>d[k]\<close> with a string key.\<close>

fun py_index :: "pyval \<Rightarrow> string \<Rightarrow> exn + pyval" where
  "py_index (PDict kvs) k = (case map_of kvs k of Some v \<Rightarrow> Inr v | None \<Rightarrow> Inl KeyError)"
| "py_index PNone k = Inl TypeError"
| "py_index (PBool b) k = Inl TypeError"
| "py_index (PInt i) k = Inl TypeError"
| "py_index (PStr s) k = Inl TypeError"
| "py_index (PList xs) k = Inl TypeError"

text \<open>The truth value of an object, as \<^verbatim>\<open>if x:\<close> tests it.\<close>

fun truthy :: "pyval \<Rightarrow> bool" where
  "truthy PNone = False"
| "truthy (PBool b) = b"
| "truthy (PInt i) = (i \<noteq> 0)"
| "truthy (PStr s) = (s \<noteq> [])"
| "truthy (PList xs) = (xs \<noteq> [])"
| "truthy (PDict kvs) = (kvs \<noteq> [])"

text \<open>
  \<^verbatim>\<open>for x in v\<close>: a list yields its elements, a string its characters (one-character
  strings), a dict its keys; nothing else is iterable. Every element the source iterates
  over is at once asked for \<^verbatim>\<open>.get\<close>, which a string does not have, so that a string is
  walked byte by byte here and code point by code point there makes no difference.
\<close>

fun py_iter :: "pyval \<Rightarrow> exn + pyval list" where
  "py_iter (PList xs) = Inr xs"
| "py_iter (PStr s) = Inr (map (\<lambda>c. PStr [c]) s)"
| "py_iter (PDict kvs) = Inr (map (\<lambda>kv. PStr (fst kv)) kvs)"
| "py_iter PNone = Inl TypeError"
| "py_iter (PBool b) = Inl TypeError"
| "py_iter (PInt i) = Inl TypeError"

text \<open>
  \<^verbatim>\<open>v[:n]\<close>: lists and strings can be sliced. A dict raises (\<^verbatim>\<open>TypeError\<close> up to
  CPython 3.11, where a slice is not hashable; \<^verbatim>\<open>KeyError\<close> from 3.12 on).
\<close>

fun py_take :: "nat \<Rightarrow> pyval \<Rightarrow> exn + pyval" where
  "py_take n (PList xs) = Inr (PList (take n xs))"
| "py_take n (PStr s) = Inr (PStr (take n s))"
| "py_take n (PDict kvs) = Inl TypeError"
| "py_take n PNone = Inl TypeError"
| "py_take n (PBool b) = Inl TypeError"
| "py_take n (PInt i) = Inl TypeError"

section \<open>Counting: \<^verbatim>\<open>collections.Counter\<close>\<close>

text \<open>
  Lists and dicts cannot be dict keys. Among the hashable values, keys are compared with
  \<^verbatim>\<open>==\<close>, under which \<^verbatim>\<open>True == 1\<close> and \<^verbatim>\<open>False == 0\<close>; \<open>py_key\<close> is the
  representative of a value under that equality.
\<close>

fun hashable :: "pyval \<Rightarrow> bool" where
  "hashable (PList xs) = False"
| "hashable (PDict kvs) = False"
| "hashable v = True"

fun py_key :: "pyval \<Rightarrow> pyval" where
  "py_key (PBool b) = PInt (if b then 1 else 0)"
| "py_key v = v"

definition py_eq :: "pyval \<Rightarrow> pyval \<Rightarrow> bool" where
  "py_eq a b = (py_key a = py_key b)"

text \<open>
  A \<^verbatim>\<open>Counter\<close> is a dict from element to count: the entries stand in the order in which
  their keys were first inserted, and a key keeps the object first inserted for it.
  \<open>count_key x d\<close> is \<^verbatim>\<open>d[x] = d.get(x, 0) + 1\<close>.
\<close>

fun count_key :: "pyval \<Rightarrow> (pyval \<times> nat) list \<Rightarrow> (pyval \<times> nat) list" where
  "count_key x [] = [(x, 1)]"
| "count_key x ((k, c) # rest) =
     (if py_eq k x then (k, c + 1) # rest else (k, c) # count_key x rest)"

definition Counter :: "pyval list \<Rightarrow> exn + (pyval \<times> nat) list" where
  "Counter xs =
     (if list_all hashable xs then Inr (foldl (\<lambda>d x. count_key x d) [] xs)
      else Inl TypeError)"

text \<open>
  \<^verbatim>\<open>most_common(n)\<close> is \<^verbatim>\<open>heapq.nlargest(n, items, key=count)\<close>, documented as
  \<^verbatim>\<open>sorted(items, key=count, reverse=True)[:n]\<close>: a stable sort by descending count.
\<close>

definition most_common :: "nat \<Rightarrow> (pyval \<times> nat) list \<Rightarrow> (pyval \<times> nat) list" where
  "most_common n items = take n (sort_key (\<lambda>kc. - int (snd kc)) items)"

text \<open>
  \<^verbatim>\<open>sorted(counter.items())\<close> compares \<^verbatim>\<open>(key, count)\<close> tuples. Numbers (with
  \<^verbatim>\<open>True\<close> as 1) compare with numbers and strings with strings; \<^verbatim>\<open><\<close> between any
  other two keys raises \<^verbatim>\<open>TypeError\<close>. The items of a counter have pairwise different
  keys, so sorting two or more of them compares keys of every kind present.
\<close>

fun is_number :: "pyval \<Rightarrow> bool" where
  "is_number (PInt i) = True"
| "is_number (PBool b) = True"
| "is_number v = False"

fun num_of :: "pyval \<Rightarrow> int" where
  "num_of (PInt i) = i"
| "num_of (PBool b) = (if b then 1 else 0)"
| "num_of v = 0"

fun is_string :: "pyval \<Rightarrow> bool" where
  "is_string (PStr s) = True"
| "is_string v = False"

fun str_of :: "pyval \<Rightarrow> string" where
  "str_of (PStr s) = s"
| "str_of v = []"

definition py_sorted :: "(pyval \<times> nat) list \<Rightarrow> exn + (pyval \<times> nat) list" where
  "py_sorted items =
     (if length items \<le> 1 then Inr items
      else if list_all (\<lambda>kc. is_number (fst kc)) items
        then Inr (sort_key (\<lambda>kc. (num_of (fst kc), snd kc)) items)
      else if list_all (\<lambda>kc. is_string (fst kc)) items
        then Inr (sort_key (\<lambda>kc. (str_of (fst kc), snd kc)) items)
      else Inl TypeError)"

text \<open>\<^verbatim>\<open>dict(pairs)\<close>: the pairs are inserted in order; a key already there keeps its place.\<close>

fun dict_set :: "pyval \<Rightarrow> nat \<Rightarrow> (pyval \<times> nat) list \<Rightarrow> (pyval \<times> nat) list" where
  "dict_set x v [] = [(x, v)]"
| "dict_set x v ((k, c) # rest) =
     (if py_eq k x then (k, v) # rest else (k, c) # dict_set x v rest)"

definition dict_of :: "(pyval \<times> nat) list \<Rightarrow> (pyval \<times> nat) list" where
  "dict_of pairs = foldl (\<lambda>d kv. dict_set (fst kv) (snd kv) d) [] pairs"

section \<open>Aggregation: \<^verbatim>\<open>analyze_research_data\<close>\<close>

record ResearchStats =
  total_papers :: pyval
  top_papers :: "pyval list"
  yearly_trends :: "(pyval \<times> nat) list"
  top_institutions :: "(pyval \<times> nat) list"
  top_authors :: "(pyval \<times> nat) list"
  charts :: "(string \<times> string) list option"

text \<open>One entry of \<^verbatim>\<open>top_papers\<close> (lines 73 to 78): a dict of four fields with defaults.\<close>

definition paper_entry :: "pyval \<Rightarrow> exn + pyval" where
  "paper_entry paper =
     bind_exn (py_get paper ''title'' (PStr [])) (\<lambda>t.
     bind_exn (py_get paper ''cited_by_count'' (PInt 0)) (\<lambda>c.
     bind_exn (py_get paper ''publication_year'' (PStr [])) (\<lambda>y.
     bind_exn (py_get paper ''doi'' (PStr [])) (\<lambda>d.
       Inr (PDict [(''title'', t), (''citations'', c), (''year'', y), (''doi'', d)])))))"

text \<open>
  Line 83: \<^verbatim>\<open>[paper.get("publication_year") for paper in results
  if paper.get("publication_year")]\<close>.
\<close>

definition collect_years :: "pyval list \<Rightarrow> exn + pyval list" where
  "collect_years papers =
     bind_exn (map_exn (\<lambda>paper. py_get paper ''publication_year'' PNone) papers)
       (\<lambda>ys. Inr (filter truthy ys))"

text \<open>
  Lines 90 to 92, for one authorship entry: the display names of its institutions, when
  its \<^verbatim>\<open>institutions\<close> field is truthy.
\<close>

definition institution_names :: "pyval \<Rightarrow> exn + pyval list" where
  "institution_names inst =
     bind_exn (py_get inst ''institutions'' PNone) (\<lambda>present.
       if truthy present
       then bind_exn (py_get inst ''institutions'' (PList [])) (\<lambda>v.
            bind_exn (py_iter v) (\<lambda>entries.
              map_exn (\<lambda>i. py_get i ''display_name'' PNone) entries))
       else Inr [])"

text \<open>
  Lines 93 to 95, for one authorship entry: the display name of its author, when its
  \<^verbatim>\<open>author\<close> field is truthy.
\<close>

definition author_names :: "pyval \<Rightarrow> exn + pyval list" where
  "author_names author =
     bind_exn (py_get author ''author'' PNone) (\<lambda>present.
       if truthy present
       then bind_exn (py_index author ''author'') (\<lambda>a.
            bind_exn (py_get a ''display_name'' PNone) (\<lambda>n. Inr [n]))
       else Inr [])"

text \<open>
  The body of the loop over papers (lines 90 to 95): what one paper appends to
  \<^verbatim>\<open>institutions\<close> and to \<^verbatim>\<open>authors\<close>.
\<close>

definition paper_affiliations :: "pyval \<Rightarrow> exn + (pyval list \<times> pyval list)" where
  "paper_affiliations paper =
     bind_exn (py_get paper ''authorships'' (PList [])) (\<lambda>a1.
     bind_exn (py_iter a1) (\<lambda>insts.
     bind_exn (map_exn institution_names insts) (\<lambda>iss.
     bind_exn (py_get paper ''authorships'' (PList [])) (\<lambda>a2.
     bind_exn (py_iter a2) (\<lambda>auths.
     bind_exn (map_exn author_names auths) (\<lambda>ass.
       Inr (concat iss, concat ass)))))))"

text \<open>Lines 87 to 95: the two lists after the loop over all papers.\<close>

definition extract_affiliations :: "pyval list \<Rightarrow> exn + (pyval list \<times> pyval list)" where
  "extract_affiliations papers =
     bind_exn (map_exn paper_affiliations papers) (\<lambda>ps.
       Inr (concat (map fst ps), concat (map snd ps)))"

text \<open>Lines 68 to 106: the statistics object as constructed, before the charts.\<close>

definition build_stats :: "pyval \<Rightarrow> exn + ResearchStats" where
  "build_stats api_response =
     bind_exn (py_get api_response ''results'' (PList [])) (\<lambda>results.
     bind_exn (py_get api_response ''meta'' (PDict [])) (\<lambda>meta.
     bind_exn (py_get meta ''count'' (PInt 0)) (\<lambda>n.
     bind_exn (py_take 5 results) (\<lambda>first5.
     bind_exn (py_iter first5) (\<lambda>top5.
     bind_exn (map_exn paper_entry top5) (\<lambda>tops.
     bind_exn (py_iter results) (\<lambda>papers.
     bind_exn (collect_years papers) (\<lambda>years.
     bind_exn (Counter years) (\<lambda>yearly.
     bind_exn (extract_affiliations papers) (\<lambda>aff.
     bind_exn (Counter (fst aff)) (\<lambda>inst_counts.
     bind_exn (Counter (snd aff)) (\<lambda>author_counts.
     bind_exn (py_sorted yearly) (\<lambda>by_year.
       Inr \<lparr> total_papers = n,
             top_papers = tops,
             yearly_trends = dict_of by_year,
             top_institutions = most_common 5 inst_counts,
             top_authors = most_common 5 author_counts,
             charts = None \<rparr>)))))))))))))"

section \<open>Chart rendering: \<^verbatim>\<open>create_visualization_charts\<close>\<close>

text \<open>
  The plotting backend is a collaborator: it is a parameter of the model. For each chart
  the source opens a figure, draws from two sequences, saves the figure as PNG and
  encodes the bytes as base64 text. \<open>style_use\<close> is the call of line 192, \<open>figure\<close> the
  call that opens a chart's figure (lines 195, 213, 228), and \<open>render\<close> everything from the
  drawing to the encoded text of one chart. Each returns its result or, when the backend
  raises, the message of the exception (\<open>Inl m\<close>).
\<close>

datatype chart_id = Trend | Institutions | Authors

fun chart_key :: "chart_id \<Rightarrow> string" where
  "chart_key Trend = ''trend''"
| "chart_key Institutions = ''institutions''"
| "chart_key Authors = ''authors''"

record plt =
  style_use :: "string + unit"
  figure :: "chart_id \<Rightarrow> string + unit"
  render :: "chart_id \<Rightarrow> pyval list \<Rightarrow> nat list \<Rightarrow> string + string"

text \<open>
  \<^verbatim>\<open>names, counts = zip(*pairs)\<close> (lines 214 and 229): with no pair, \<^verbatim>\<open>zip()\<close> yields
  nothing and the assignment to two names raises \<^verbatim>\<open>ValueError\<close>; with one pair or more
  it yields the tuple of names and the tuple of counts.
\<close>

definition unpack_zip :: "(pyval \<times> nat) list \<Rightarrow> exn + (pyval list \<times> nat list)" where
  "unpack_zip pairs =
     (if pairs = [] then Inl ValueError else Inr (map fst pairs, map snd pairs))"

definition create_visualization_charts :: "plt \<Rightarrow> ResearchStats \<Rightarrow> exn + (string \<times> string) list" where
  "create_visualization_charts backend st =
     bind_exn (raised (style_use backend)) (\<lambda>u0.
     bind_exn (raised (figure backend Trend)) (\<lambda>u1.
     bind_exn (raised (render backend Trend (map fst (yearly_trends st))
                         (map snd (yearly_trends st)))) (\<lambda>trend.
     bind_exn (raised (figure backend Institutions)) (\<lambda>u2.
     bind_exn (unpack_zip (top_institutions st)) (\<lambda>inst.
     bind_exn (raised (render backend Institutions (fst inst) (snd inst))) (\<lambda>institutions.
     bind_exn (raised (figure backend Authors)) (\<lambda>u3.
     bind_exn (unpack_zip (top_authors st)) (\<lambda>auth.
     bind_exn (raised (render backend Authors (fst auth) (snd auth))) (\<lambda>authors.
       Inr [(chart_key Trend, trend), (chart_key Institutions, institutions),
            (chart_key Authors, authors)])))))))))"

text \<open>Lines 66 to 111: the statistics, then the charts attached to them.\<close>

definition analyze_research_data :: "plt \<Rightarrow> pyval \<Rightarrow> exn + ResearchStats" where
  "analyze_research_data backend api_response =
     bind_exn (build_stats api_response) (\<lambda>st.
     bind_exn (create_visualization_charts backend st) (\<lambda>cs.
       Inr (st\<lparr>charts := Some cs\<rparr>)))"

text \<open>A backend on which every call succeeds; its images are a fixed text per chart.\<close>

definition ok_plt :: plt where
  "ok_plt = \<lparr> style_use = Inr (), figure = (\<lambda>c. Inr ()),
              render = (\<lambda>c xs ys. Inr (''PNG:'' @ chart_key c)) \<rparr>"

section \<open>Text formatting: \<^verbatim>\<open>format_insights\<close>\<close>

text \<open>Decimal text of a number, and the \<^verbatim>\<open>,\<close> format of an integer (groups of three).\<close>

definition digit_char :: "nat \<Rightarrow> char" where
  "digit_char d = char_of (48 + d)"

fun str_nat :: "nat \<Rightarrow> string" where
  "str_nat n = (if n < 10 then [digit_char n] else str_nat (n div 10) @ [digit_char (n mod 10)])"

declare str_nat.simps [simp del]

definition str_int :: "int \<Rightarrow> string" where
  "str_int i = (if i < 0 then CHR ''-'' # str_nat (nat (- i)) else str_nat (nat i))"

function group3 :: "string \<Rightarrow> string" where
  "group3 ds =
     (if length ds \<le> 3 then ds
      else group3 (take (length ds - 3) ds) @ '','' @ drop (length ds - 3) ds)"
  by pat_completeness auto
termination
  by (relation "measure length") auto

declare group3.simps [simp del]

definition comma_int :: "int \<Rightarrow> string" where
  "comma_int i =
     (if i < 0 then CHR ''-'' # group3 (str_nat (nat (- i))) else group3 (str_nat (nat i)))"

text \<open>
  \<^verbatim>\<open>f"{v:,}"\<close>: integers are grouped (a bool is formatted as the integer it is); a
  string raises \<^verbatim>\<open>ValueError\<close>, \<^verbatim>\<open>None\<close>, a list or a dict \<^verbatim>\<open>TypeError\<close>.
\<close>

fun py_format_comma :: "pyval \<Rightarrow> exn + string" where
  "py_format_comma (PInt i) = Inr (comma_int i)"
| "py_format_comma (PBool b) = Inr (comma_int (if b then 1 else 0))"
| "py_format_comma (PStr s) = Inl ValueError"
| "py_format_comma PNone = Inl TypeError"
| "py_format_comma (PList xs) = Inl TypeError"
| "py_format_comma (PDict kvs) = Inl TypeError"

text \<open>
  \<^verbatim>\<open>f"{v}"\<close> is \<^verbatim>\<open>str(v)\<close>. For a list or a dict that is its \<^verbatim>\<open>repr\<close>, whose quoting
  and escaping rules are not modelled: it is the parameter \<open>container_repr\<close>.
\<close>

fun py_str :: "(pyval \<Rightarrow> string) \<Rightarrow> pyval \<Rightarrow> string" where
  "py_str container_repr PNone = ''None''"
| "py_str container_repr (PBool b) = (if b then ''True'' else ''False'')"
| "py_str container_repr (PInt i) = str_int i"
| "py_str container_repr (PStr s) = s"
| "py_str container_repr (PList xs) = container_repr (PList xs)"
| "py_str container_repr (PDict kvs) = container_repr (PDict kvs)"

text \<open>\<^verbatim>\<open>"\n".join(lines)\<close>.\<close>

fun join_lines :: "string list \<Rightarrow> string" where
  "join_lines [] = []"
| "join_lines [l] = l"
| "join_lines (l # m # rest) = l @ ''\<newline>'' @ join_lines (m # rest)"

text \<open>
  The fixed lines of the report, byte for byte as the source file stores them (the
  pictograph before each title is kept as the bytes of the file).
\<close>

definition bullet :: string where
  "bullet = [CHR 0xC3, CHR 0xA2, CHR 0xE2, CHR 0x82, CHR 0xAC, CHR 0xC2, CHR 0xA2]"

definition title_line :: string where
  "title_line = [CHR 0xC3, CHR 0xB0, CHR 0xC5, CHR 0xB8, CHR 0xE2, CHR 0x80, CHR 0x9C,
                 CHR 0xC5, CHR 0xA0] @ '' Market Research Insights''"

definition found_line :: "string \<Rightarrow> string" where
  "found_line n =
     ''\<newline>'' @ [CHR 0xC3, CHR 0xB0, CHR 0xC5, CHR 0xB8, CHR 0xE2, CHR 0x80, CHR 0x9D]
     @ '' Found '' @ n @ '' academic papers on this topic''"

definition interest_lines :: "string list" where
  "interest_lines =
     [''\<newline>'' @ [CHR 0xC3, CHR 0xB0, CHR 0xC5, CHR 0xB8, CHR 0xE2, CHR 0x80, CHR 0x9C,
                       CHR 0xCB, CHR 0x86] @ '' Research Interest:'',
      ''Year | Number of Papers'',
      ''-----|----------------'']"

definition papers_lines :: "string list" where
  "papers_lines =
     [''\<newline>'' @ [CHR 0xC3, CHR 0xB0, CHR 0xC5, CHR 0xB8, CHR 0xE2, CHR 0x80, CHR 0xA0]
        @ '' Top Cited Papers:'',
      ''-------------------'']"

definition institutions_lines :: "string list" where
  "institutions_lines =
     [''\<newline>'' @ [CHR 0xC3, CHR 0xB0, CHR 0xC5, CHR 0xB8, CHR 0xE2, CHR 0x80, CHR 0xBA,
                       CHR 0xC3, CHR 0xAF, CHR 0xC2, CHR 0xB8] @ '' Leading Institutions:'',
      ''--------------------'']"

definition authors_lines :: "string list" where
  "authors_lines =
     [''\<newline>'' @ [CHR 0xC3, CHR 0xB0, CHR 0xC5, CHR 0xB8, CHR 0xE2, CHR 0x80, CHR 0x98,
                       CHR 0xC2, CHR 0xA8, CHR 0xC3, CHR 0xA2, CHR 0xE2, CHR 0x82, CHR 0xAC,
                       CHR 0xC3, CHR 0xB0, CHR 0xC5, CHR 0xB8, CHR 0xE2, CHR 0x80, CHR 0x9D,
                       CHR 0xC2, CHR 0xAC] @ '' Top Researchers:'',
      ''----------------'']"

text \<open>Line 126: one row of the year table.\<close>

definition trend_row :: "(pyval \<Rightarrow> string) \<Rightarrow> pyval \<times> nat \<Rightarrow> string" where
  "trend_row container_repr yc = py_str container_repr (fst yc) @ '' | '' @ str_nat (snd yc)"

text \<open>Lines 134 to 138: the block of one paper; the fields are read with \<^verbatim>\<open>paper[...]\<close>.\<close>

definition paper_block :: "(pyval \<Rightarrow> string) \<Rightarrow> pyval \<Rightarrow> exn + string" where
  "paper_block container_repr p =
     bind_exn (py_index p ''title'') (\<lambda>t.
     bind_exn (py_index p ''citations'') (\<lambda>c.
     bind_exn (py_format_comma c) (\<lambda>cites.
     bind_exn (py_index p ''year'') (\<lambda>y.
     bind_exn (py_index p ''doi'') (\<lambda>d.
       Inr (bullet @ '' '' @ py_str container_repr t
            @ ''\<newline>  Citations: '' @ cites @ '' | Year: '' @ py_str container_repr y
            @ ''\<newline>  DOI: '' @ py_str container_repr d))))))"

text \<open>Lines 145 and 152: one row of a top list.\<close>

definition count_row :: "(pyval \<Rightarrow> string) \<Rightarrow> pyval \<times> nat \<Rightarrow> string" where
  "count_row container_repr nc =
     bullet @ '' '' @ py_str container_repr (fst nc) @ '' ('' @ str_nat (snd nc) @ '' papers)''"

definition format_insights :: "(pyval \<Rightarrow> string) \<Rightarrow> ResearchStats \<Rightarrow> exn + string" where
  "format_insights container_repr st =
     bind_exn (py_format_comma (total_papers st)) (\<lambda>n.
     bind_exn (map_exn (paper_block container_repr) (top_papers st)) (\<lambda>blocks.
       Inr (join_lines
         ([title_line, found_line n] @ interest_lines
          @ map (trend_row container_repr) (yearly_trends st)
          @ papers_lines @ blocks
          @ institutions_lines @ map (count_row container_repr) (top_institutions st)
          @ authors_lines @ map (count_row container_repr) (top_authors st)))))"

section \<open>The two remote services\<close>

text \<open>
  The world outside the process: what the search endpoint and the completion service
  answer to the n-th request they receive, the requests sent so far, and the lines
  printed. A service call returns its result or the message of the exception the client
  library raised.
\<close>

record http_request =
  url :: string
  params :: "(string \<times> pyval) list"

record http_response =
  status_code :: int
  json :: "string + pyval"

record chat_request =
  model :: string
  messages :: "(string \<times> string) list"
  temperature :: "nat \<times> nat"
  max_tokens :: nat

record world =
  http_reply :: "nat \<Rightarrow> http_request \<Rightarrow> string + http_response"
  http_sent :: "http_request list"
  chat_reply :: "nat \<Rightarrow> chat_request \<Rightarrow> string + string"
  chat_sent :: "chat_request list"
  printed :: "string list"

text \<open>Lines 53 to 58: the one request of a fetch.\<close>

definition openalex_request :: "string \<Rightarrow> http_request" where
  "openalex_request concept =
     \<lparr> url = ''https://api.openalex.org/works'',
       params = [(''search'', PStr concept), (''per_page'', PInt 50),
                 (''sort'', PStr ''cited_by_count:desc'')] \<rparr>"

definition query_openalex :: "string \<Rightarrow> world \<Rightarrow> (exn + pyval) \<times> world" where
  "query_openalex concept w =
     (let request = openalex_request concept;
          w' = w\<lparr>http_sent := http_sent w @ [request]\<rparr>
      in case http_reply w (length (http_sent w)) request of
           Inl m \<Rightarrow> (Inl (Foreign m), w')
         | Inr response \<Rightarrow>
             if status_code response \<noteq> 200
             then (Inl (Exception (''OpenAlex API request failed with status ''
                                   @ str_int (status_code response))), w')
             else (raised (json response), w'))"

text \<open>
  Lines 158 to 185. The sampling temperature 0.7 is kept as the fraction 7/10. Whatever
  is raised inside the \<^verbatim>\<open>try\<close> block is printed and raised again as a plain
  \<^verbatim>\<open>Exception\<close> that carries its message.
\<close>

definition insights_prompt :: "string \<Rightarrow> string \<Rightarrow> string" where
  "insights_prompt research_data concept =
     ''As an investment analyst, analyze the following research landscape data for ''
     @ concept
     @ '' and provide strategic investment insights. \<newline>    Focus on:\<newline>    1. Market maturity and growth potential\<newline>    2. Key players and institutional involvement\<newline>    3. Research momentum and emerging trends\<newline>    4. Potential investment opportunities and risks\<newline>    5. Recommendations for investors\<newline>\<newline>    Research Data:\<newline>    ''
     @ research_data
     @ ''\<newline>\<newline>    Provide a concise, actionable analysis for investors considering this space.\<newline>    ''"

definition insights_request :: "string \<Rightarrow> string \<Rightarrow> chat_request" where
  "insights_request research_data concept =
     \<lparr> model = ''gpt-4o'',
       messages =
         [(''system'', ''You are an expert investment analyst specializing in emerging technology markets.''),
          (''user'', insights_prompt research_data concept)],
       temperature = (7, 10),
       max_tokens = 1000 \<rparr>"

definition generate_investment_insights ::
    "string \<Rightarrow> string \<Rightarrow> world \<Rightarrow> (exn + string) \<times> world" where
  "generate_investment_insights research_data concept w =
     (let request = insights_request research_data concept;
          w' = w\<lparr>chat_sent := chat_sent w @ [request]\<rparr>
      in case chat_reply w (length (chat_sent w)) request of
           Inl m \<Rightarrow>
             (Inl (Exception (''Azure OpenAI API call failed: '' @ m)),
              w'\<lparr>printed := printed w' @ [''Detailed error: '' @ m]\<rparr>)
         | Inr content \<Rightarrow> (Inr content, w'))"

section \<open>The pipeline: \<^verbatim>\<open>ResearchBot\<close>\<close>

record State =
  concept :: string
  api_response :: pyval
  stats :: "ResearchStats option"
  result :: "string option"
  investment_insights :: "string option"
  charts :: "(string \<times> string) list option"

text \<open>
  What the run takes from its surroundings beside the two services: the plotting backend,
  the \<^verbatim>\<open>repr\<close> of lists and dicts, and the wording of the exceptions that the
  interpreter raises.
\<close>

record runtime =
  plotting :: plt
  container_repr :: "pyval \<Rightarrow> string"
  wording :: "exn \<Rightarrow> string"

text \<open>\<^verbatim>\<open>str(e)\<close>.\<close>

definition str_exn :: "(exn \<Rightarrow> string) \<Rightarrow> exn \<Rightarrow> string" where
  "str_exn interp e = (case e of Exception m \<Rightarrow> m | Foreign m \<Rightarrow> m | _ \<Rightarrow> interp e)"

text \<open>
  The four nodes (lines 263 to 277). Each reads the state and returns the fields it sets;
  the graph engine, which is not part of the repository, merges them into the state and
  calls the next node along the edges query, analyze, format, insights (lines 286 to
  294). An exception raised in a node leaves \<^verbatim>\<open>invoke\<close>. Whatever else the engine
  does with the state between two nodes (such as validating it against the schema) is
  not modelled.
\<close>

definition initial_state :: "string \<Rightarrow> State" where
  "initial_state c =
     \<lparr> concept = c, api_response = PNone, stats = None, result = None,
       investment_insights = None, charts = None \<rparr>"

definition query_node :: "State \<Rightarrow> world \<Rightarrow> (exn + State) \<times> world" where
  "query_node s w =
     (case query_openalex (concept s) w of
        (Inl e, w') \<Rightarrow> (Inl e, w')
      | (Inr r, w') \<Rightarrow> (Inr (s\<lparr>api_response := r\<rparr>), w'))"

definition analyze_node :: "runtime \<Rightarrow> State \<Rightarrow> exn + State" where
  "analyze_node rt s =
     bind_exn (analyze_research_data (plotting rt) (api_response s)) (\<lambda>st.
       Inr (s\<lparr>stats := Some st, charts := ResearchStats.charts st\<rparr>))"

definition format_node :: "runtime \<Rightarrow> State \<Rightarrow> exn + State" where
  "format_node rt s =
     bind_exn (case stats s of None \<Rightarrow> Inl AttributeError
               | Some st \<Rightarrow> format_insights (container_repr rt) st) (\<lambda>text_report.
       Inr (s\<lparr>result := Some text_report\<rparr>))"

definition insights_node :: "State \<Rightarrow> world \<Rightarrow> (exn + State) \<times> world" where
  "insights_node s w =
     (case generate_investment_insights
             (case result s of None \<Rightarrow> ''None'' | Some t \<Rightarrow> t) (concept s) w of
        (Inl e, w') \<Rightarrow> (Inl e, w')
      | (Inr narrative, w') \<Rightarrow> (Inr (s\<lparr>investment_insights := Some narrative\<rparr>), w'))"

definition invoke :: "runtime \<Rightarrow> string \<Rightarrow> world \<Rightarrow> (exn + State) \<times> world" where
  "invoke rt c w =
     (case query_node (initial_state c) w of
        (Inl e, w1) \<Rightarrow> (Inl e, w1)
      | (Inr s1, w1) \<Rightarrow>
          (case analyze_node rt s1 of
             Inl e \<Rightarrow> (Inl e, w1)
           | Inr s2 \<Rightarrow>
               (case format_node rt s2 of
                  Inl e \<Rightarrow> (Inl e, w1)
                | Inr s3 \<Rightarrow> insights_node s3 w1)))"

text \<open>
  Lines 298 to 305. The returned triple holds Python values that are strings or
  \<^verbatim>\<open>None\<close>; the bot remembers the final state of its last successful run.
\<close>

record bot =
  current_state :: "State option"

definition run ::
    "runtime \<Rightarrow> string \<Rightarrow> bot \<Rightarrow> world
      \<Rightarrow> (string option \<times> string option \<times> (string \<times> string) list option) \<times> bot \<times> world" where
  "run rt c b w =
     (case invoke rt c w of
        (Inl e, w') \<Rightarrow>
          ((Some (''Error: '' @ str_exn (wording rt) e), Some [], None), b, w')
      | (Inr final, w') \<Rightarrow>
          ((result final, investment_insights final, State.charts final),
           b\<lparr>current_state := Some final\<rparr>, w'))"

section \<open>The payload as the aggregation reads it\<close>

text \<open>
  Total readings of a payload, used to state what the aggregation computes:
  \<open>get_field\<close> is the field of a dict (\<open>PNone\<close> when the field or the dict is missing) and
  \<open>items_of\<close> the elements of a list (none for any other value). The records are the
  elements of \<^verbatim>\<open>results\<close>, a record's year is its \<^verbatim>\<open>publication_year\<close>, its authorship
  entries are the elements of \<^verbatim>\<open>authorships\<close>; an authorship entry lists the
  \<^verbatim>\<open>display_name\<close> of each element of \<^verbatim>\<open>institutions\<close>, and names its author by the
  \<^verbatim>\<open>display_name\<close> of \<^verbatim>\<open>author\<close> when that field is truthy.
\<close>

fun get_field :: "string \<Rightarrow> pyval \<Rightarrow> pyval" where
  "get_field k (PDict kvs) = (case map_of kvs k of Some v \<Rightarrow> v | None \<Rightarrow> PNone)"
| "get_field k v = PNone"

fun items_of :: "pyval \<Rightarrow> pyval list" where
  "items_of (PList xs) = xs"
| "items_of v = []"

fun is_dict :: "pyval \<Rightarrow> bool" where
  "is_dict (PDict kvs) = True"
| "is_dict v = False"

definition result_records :: "pyval \<Rightarrow> pyval list" where
  "result_records r = items_of (get_field ''results'' r)"

definition record_years :: "pyval \<Rightarrow> pyval list" where
  "record_years r = map (get_field ''publication_year'') (result_records r)"

definition authorship_entries :: "pyval \<Rightarrow> pyval list" where
  "authorship_entries r =
     concat (map (\<lambda>p. items_of (get_field ''authorships'' p)) (result_records r))"

definition authorship_institutions :: "pyval \<Rightarrow> pyval list" where
  "authorship_institutions a =
     map (get_field ''display_name'') (items_of (get_field ''institutions'' a))"

definition authorship_author :: "pyval \<Rightarrow> pyval list" where
  "authorship_author a =
     (if truthy (get_field ''author'' a)
      then [get_field ''display_name'' (get_field ''author'' a)] else [])"

definition institution_list :: "pyval \<Rightarrow> pyval list" where
  "institution_list r = concat (map authorship_institutions (authorship_entries r))"

definition author_list :: "pyval \<Rightarrow> pyval list" where
  "author_list r = concat (map authorship_author (authorship_entries r))"

text \<open>
  Occurrences of a value in a list and the values in the order of their first occurrence,
  both up to the equality of dict keys; \<open>first_index\<close> is the position of the first
  occurrence.
\<close>

definition occurrences :: "pyval \<Rightarrow> pyval list \<Rightarrow> nat" where
  "occurrences x xs = length (filter (\<lambda>y. py_eq y x) xs)"

fun firsts :: "pyval list \<Rightarrow> pyval list" where
  "firsts [] = []"
| "firsts (x # xs) = x # filter (\<lambda>y. \<not> py_eq x y) (firsts xs)"

definition first_index :: "pyval \<Rightarrow> pyval list \<Rightarrow> nat" where
  "first_index a xs = length (takeWhile (\<lambda>x. \<not> py_eq x a) xs)"

text \<open>
  \<^verbatim>\<open>a < b\<close> where Python defines it on dict keys: between numbers and between strings.
\<close>

definition py_less :: "pyval \<Rightarrow> pyval \<Rightarrow> bool" where
  "py_less a b \<longleftrightarrow>
     (is_number a \<and> is_number b \<and> num_of a < num_of b) \<or>
     (is_string a \<and> is_string b \<and> str_of a < str_of b)"

text \<open>The years that line 83 keeps: those of the records whose year is truthy.\<close>

definition truthy_years :: "pyval \<Rightarrow> pyval list" where
  "truthy_years r = filter truthy (record_years r)"

text \<open>
  What a \<^verbatim>\<open>Counter\<close> of a list of hashable values holds (lemma \<open>Counter_counted\<close>): each
  value at its first occurrence, with the number of its occurrences.
\<close>

definition counted :: "pyval list \<Rightarrow> (pyval \<times> nat) list" where
  "counted xs = map (\<lambda>k. (k, occurrences k xs)) (firsts xs)"

text \<open>The two sequences a chart is drawn from.\<close>

fun chart_data :: "chart_id \<Rightarrow> ResearchStats \<Rightarrow> pyval list \<times> nat list" where
  "chart_data Trend st = (map fst (yearly_trends st), map snd (yearly_trends st))"
| "chart_data Institutions st = (map fst (top_institutions st), map snd (top_institutions st))"
| "chart_data Authors st = (map fst (top_authors st), map snd (top_authors st))"

text \<open>
  The years of the records whose year field is defined (present and not \<^verbatim>\<open>None\<close>): the
  reading of claim C2 as it is worded.
\<close>

definition defined_years :: "pyval \<Rightarrow> pyval list" where
  "defined_years r = filter (\<lambda>y. y \<noteq> PNone) (record_years r)"

text \<open>
  The author display names that are present (not \<^verbatim>\<open>None\<close>) in the authorship entries:
  the reading of claim C9 as it is worded.
\<close>

definition present_author_names :: "pyval \<Rightarrow> pyval list" where
  "present_author_names r =
     filter (\<lambda>n. n \<noteq> PNone)
       (map (\<lambda>a. get_field ''display_name'' (get_field ''author'' a)) (authorship_entries r))"

section \<open>Concrete payloads\<close>

text \<open>
  A payload of two papers in the shape the search API returns: the first has two
  authorship entries, the second one.
\<close>

definition authorship :: "string \<Rightarrow> string list \<Rightarrow> pyval" where
  "authorship name insts =
     PDict [(''author'', PDict [(''display_name'', PStr name)]),
            (''institutions'', PList (map (\<lambda>i. PDict [(''display_name'', PStr i)]) insts))]"

definition paper :: "string \<Rightarrow> int \<Rightarrow> pyval \<Rightarrow> pyval list \<Rightarrow> pyval" where
  "paper t cites y auths =
     PDict [(''title'', PStr t), (''cited_by_count'', PInt cites),
            (''publication_year'', y), (''authorships'', PList auths)]"

definition payload :: "int \<Rightarrow> pyval list \<Rightarrow> pyval" where
  "payload n papers = PDict [(''meta'', PDict [(''count'', PInt n)]), (''results'', PList papers)]"

definition sample_payload :: pyval where
  "sample_payload =
     payload 2
       [paper ''P1'' 9 (PInt 2021) [authorship ''Ann'' [''A'', ''B''], authorship ''Bob'' []],
        paper ''P2'' 4 (PInt 2020) [authorship ''Ann'' [''A'']]]"

text \<open>Six papers with six different institutions and authors: one more than the top lists hold.\<close>

definition six_payload :: pyval where
  "six_payload =
     payload 60
       [paper ''P1'' 60 (PInt 2019) [authorship ''U1'' [''I1'']],
        paper ''P2'' 50 (PInt 2020) [authorship ''U2'' [''I2'']],
        paper ''P3'' 40 (PInt 2021) [authorship ''U3'' [''I3'']],
        paper ''P4'' 30 (PInt 2022) [authorship ''U4'' [''I4'']],
        paper ''P5'' 20 (PInt 2023) [authorship ''U5'' [''I5'']],
        paper ''P6'' 10 (PInt 2024) [authorship ''U6'' [''I6'']]]"

definition top_entry :: "string \<Rightarrow> int \<Rightarrow> pyval \<Rightarrow> pyval" where
  "top_entry t cites y =
     PDict [(''title'', PStr t), (''citations'', PInt cites), (''year'', y), (''doi'', PStr [])]"

definition ok_charts :: "(string \<times> string) list" where
  "ok_charts = [(''trend'', ''PNG:trend''), (''institutions'', ''PNG:institutions''),
                (''authors'', ''PNG:authors'')]"

definition six_stats :: ResearchStats where
  "six_stats =
     \<lparr> total_papers = PInt 60,
       top_papers = [top_entry ''P1'' 60 (PInt 2019), top_entry ''P2'' 50 (PInt 2020),
                     top_entry ''P3'' 40 (PInt 2021), top_entry ''P4'' 30 (PInt 2022),
                     top_entry ''P5'' 20 (PInt 2023)],
       yearly_trends = [(PInt 2019, 1), (PInt 2020, 1), (PInt 2021, 1), (PInt 2022, 1),
                        (PInt 2023, 1), (PInt 2024, 1)],
       top_institutions = [(PStr ''I1'', 1), (PStr ''I2'', 1), (PStr ''I3'', 1),
                           (PStr ''I4'', 1), (PStr ''I5'', 1)],
       top_authors = [(PStr ''U1'', 1), (PStr ''U2'', 1), (PStr ''U3'', 1),
                      (PStr ''U4'', 1), (PStr ''U5'', 1)],
       ResearchStats.charts = Some ok_charts \<rparr>"

text \<open>Three records with the years 2020, 2021, 2020.\<close>

definition trend_payload :: pyval where
  "trend_payload =
     payload 3
       [paper ''P1'' 9 (PInt 2020) [authorship ''Ann'' [''A'']],
        paper ''P2'' 5 (PInt 2021) [authorship ''Bob'' [''B'']],
        paper ''P3'' 1 (PInt 2020) [authorship ''Ann'' [''A'']]]"

text \<open>One record whose year is present and 0.\<close>

definition zero_year_payload :: pyval where
  "zero_year_payload = payload 1 [paper ''P1'' 9 (PInt 0) [authorship ''Ann'' [''A'']]]"

text \<open>
  Records whose year is present but falsy (0, the empty string, \<^verbatim>\<open>None\<close>,
  \<^verbatim>\<open>False\<close>) beside one of 2020, and the same records with no year field at all.
\<close>

definition paper_no_year :: "string \<Rightarrow> int \<Rightarrow> pyval list \<Rightarrow> pyval" where
  "paper_no_year t cites auths =
     PDict [(''title'', PStr t), (''cited_by_count'', PInt cites),
            (''authorships'', PList auths)]"

definition falsy_years_payload :: pyval where
  "falsy_years_payload =
     payload 5
       [paper ''P1'' 9 (PInt 0) [authorship ''Ann'' [''A'']],
        paper ''P2'' 8 (PStr []) [authorship ''Ann'' [''A'']],
        paper ''P3'' 7 PNone [authorship ''Ann'' [''A'']],
        paper ''P4'' 6 (PBool False) [authorship ''Ann'' [''A'']],
        paper ''P5'' 5 (PInt 2020) [authorship ''Ann'' [''A'']]]"

definition absent_years_payload :: pyval where
  "absent_years_payload =
     payload 5
       [paper_no_year ''P1'' 9 [authorship ''Ann'' [''A'']],
        paper_no_year ''P2'' 8 [authorship ''Ann'' [''A'']],
        paper_no_year ''P3'' 7 [authorship ''Ann'' [''A'']],
        paper_no_year ''P4'' 6 [authorship ''Ann'' [''A'']],
        paper ''P5'' 5 (PInt 2020) [authorship ''Ann'' [''A'']]]"

text \<open>
  Two records: the first authorship lists the institutions A and B, the second lists A.
\<close>

definition institutions_payload :: pyval where
  "institutions_payload =
     payload 2
       [paper ''P1'' 9 (PInt 2021) [authorship ''Ann'' [''A'', ''B'']],
        paper ''P2'' 4 (PInt 2020) [authorship ''Bob'' [''A'']]]"

text \<open>
  Two institutions and two authors with one occurrence each; the pair that comes first
  in the records comes last in the alphabet.
\<close>

definition tie_payload :: pyval where
  "tie_payload =
     payload 2
       [paper ''P1'' 9 (PInt 2021) [authorship ''Zed'' [''Zeta'']],
        paper ''P2'' 4 (PInt 2020) [authorship ''Amy'' [''Alpha'']]]"

text \<open>One record whose only author has an identifier but no display name.\<close>

definition nameless_author_payload :: pyval where
  "nameless_author_payload =
     payload 1
       [paper ''P1'' 9 (PInt 2021)
          [PDict [(''author'', PDict [(''id'', PStr ''A9'')]),
                  (''institutions'', PList [PDict [(''display_name'', PStr ''A'')]])]]]"

text \<open>The statistics of a payload with no records, as constructed before the charts.\<close>

definition empty_stats :: ResearchStats where
  "empty_stats =
     \<lparr> total_papers = PInt 0, top_papers = [], yearly_trends = [], top_institutions = [],
       top_authors = [], ResearchStats.charts = None \<rparr>"

text \<open>A backend that fails with the message \<open>m\<close> when it renders the chart \<open>c\<close>.\<close>

definition failing_plt :: "chart_id \<Rightarrow> string \<Rightarrow> plt" where
  "failing_plt c m =
     ok_plt\<lparr>render := (\<lambda>c' xs ys. if c' = c then Inl m else render ok_plt c' xs ys)\<rparr>"

text \<open>
  Worlds for the examples: the search endpoint answers every request with the given
  status and body, the completion service with the given outcome.
\<close>

definition world_of :: "int \<Rightarrow> string + pyval \<Rightarrow> string + string \<Rightarrow> world" where
  "world_of status body completion =
     \<lparr> http_reply = (\<lambda>n q. Inr \<lparr> status_code = status, json = body \<rparr>),
       http_sent = [],
       chat_reply = (\<lambda>n q. completion),
       chat_sent = [],
       printed = [] \<rparr>"

definition plain_runtime :: runtime where
  "plain_runtime =
     \<lparr> plotting = ok_plt, container_repr = (\<lambda>v. ''...''), wording = (\<lambda>e. ''...'') \<rparr>"

definition new_bot :: bot where
  "new_bot = \<lparr> current_state = None \<rparr>"

section \<open>Lemmas on sequencing\<close>

lemma bind_exn_Inr_iff:
  "bind_exn m f = Inr y \<longleftrightarrow> (\<exists>x. m = Inr x \<and> f x = Inr y)"
  by (cases m) (simp_all add: bind_exn_def)

lemma bind_exn_Inl_iff:
  "bind_exn m f = Inl e \<longleftrightarrow> m = Inl e \<or> (\<exists>x. m = Inr x \<and> f x = Inl e)"
  by (cases m) (simp_all add: bind_exn_def)

lemma bind_exn_simps:
  "bind_exn (Inl e) f = Inl e"
  "bind_exn (Inr x) f = f x"
  by (simp_all add: bind_exn_def)

lemma map_exn_Inr_iff:
  "map_exn f xs = Inr ys \<longleftrightarrow> list_all2 (\<lambda>x y. f x = Inr y) xs ys"
proof (induction xs arbitrary: ys)
  case Nil
  show ?case by auto
next
  case (Cons x xs)
  show ?case
    by (cases ys) (auto simp: bind_exn_Inr_iff Cons.IH)
qed

lemma map_exn_length: "map_exn f xs = Inr ys \<Longrightarrow> length ys = length xs"
  by (simp add: map_exn_Inr_iff list_all2_lengthD)

section \<open>What a returned statistics object is made of\<close>

lemma build_stats_Inr:
  assumes "build_stats r = Inr st"
  obtains results meta first5 top5 papers years yearly aff inst_counts author_counts by_year
  where "py_get r ''results'' (PList []) = Inr results"
    and "py_get r ''meta'' (PDict []) = Inr meta"
    and "py_get meta ''count'' (PInt 0) = Inr (total_papers st)"
    and "py_take 5 results = Inr first5"
    and "py_iter first5 = Inr top5"
    and "map_exn paper_entry top5 = Inr (top_papers st)"
    and "py_iter results = Inr papers"
    and "collect_years papers = Inr years"
    and "Counter years = Inr yearly"
    and "extract_affiliations papers = Inr aff"
    and "Counter (fst aff) = Inr inst_counts"
    and "Counter (snd aff) = Inr author_counts"
    and "py_sorted yearly = Inr by_year"
    and "yearly_trends st = dict_of by_year"
    and "top_institutions st = most_common 5 inst_counts"
    and "top_authors st = most_common 5 author_counts"
    and "ResearchStats.charts st = None"
  using assms unfolding build_stats_def bind_exn_Inr_iff by auto

lemma analyze_research_data_Inr:
  assumes "analyze_research_data backend r = Inr st"
  obtains st0 cs where "build_stats r = Inr st0"
    and "create_visualization_charts backend st0 = Inr cs"
    and "st = st0\<lparr>ResearchStats.charts := Some cs\<rparr>"
  using assms unfolding analyze_research_data_def bind_exn_Inr_iff by auto

lemma py_take_iter_length:
  assumes "py_take n v = Inr w" and "py_iter w = Inr xs"
  shows "length xs \<le> n"
  using assms by (cases v) auto

lemma most_common_length: "length (most_common n items) \<le> n"
  by (simp add: most_common_def)

section \<open>Lemmas on counting\<close>

lemma py_eq_refl [simp]: "py_eq a a" by (simp add: py_eq_def)

lemma py_eq_sym: "py_eq a b \<longleftrightarrow> py_eq b a" by (auto simp: py_eq_def)

lemma py_eq_trans: "py_eq a b \<Longrightarrow> py_eq b c \<Longrightarrow> py_eq a c" by (simp add: py_eq_def)

lemma set_firsts_subset: "set (firsts xs) \<subseteq> set xs"
  by (induction xs) auto

lemma firsts_covers: "x \<in> set xs \<Longrightarrow> \<exists>k \<in> set (firsts xs). py_eq k x"
proof (induction xs)
  case Nil then show ?case by simp
next
  case (Cons y ys)
  show ?case
  proof (cases "py_eq y x")
    case True then show ?thesis by auto
  next
    case False
    with Cons.prems have "x \<in> set ys" by (auto)
    then obtain k where k: "k \<in> set (firsts ys)" "py_eq k x" using Cons.IH by blast
    have "\<not> py_eq y k" using False k(2) py_eq_trans by blast
    then show ?thesis using k by auto
  qed
qed

lemma firsts_distinct: "distinct (map py_key (firsts xs))"
proof (induction xs)
  case Nil show ?case by simp
next
  case (Cons y ys)
  have "distinct (map py_key (filter (\<lambda>z. \<not> py_eq y z) (firsts ys)))"
    using Cons.IH by (simp add: distinct_map_filter)
  moreover have "py_key y \<notin> py_key ` set (filter (\<lambda>z. \<not> py_eq y z) (firsts ys))"
    by (auto simp: py_eq_def)
  ultimately show ?case by simp
qed

lemma firsts_snoc:
  "firsts (xs @ [x]) = (if \<exists>y \<in> set xs. py_eq y x then firsts xs else firsts xs @ [x])"
proof (induction xs)
  case Nil show ?case by simp
next
  case (Cons y ys)
  show ?case using Cons.IH by (auto simp: py_eq_sym)
qed

lemma occurrences_snoc:
  "occurrences k (xs @ [x]) = occurrences k xs + (if py_eq x k then 1 else 0)"
  by (simp add: occurrences_def)

lemma occurrences_zero: "occurrences k xs = 0 \<longleftrightarrow> (\<forall>y \<in> set xs. \<not> py_eq y k)"
  by (auto simp: occurrences_def filter_empty_conv)

lemma count_key_map:
  assumes "distinct (map py_key K)"
  shows "count_key x (map (\<lambda>k. (k, h k)) K) =
     (if \<exists>k \<in> set K. py_eq k x
      then map (\<lambda>k. (k, if py_eq k x then h k + 1 else h k)) K
      else map (\<lambda>k. (k, h k)) K @ [(x, 1)])"
  using assms
proof (induction K)
  case Nil show ?case by simp
next
  case (Cons k K)
  show ?case
  proof (cases "py_eq k x")
    case True
    have "py_key k \<notin> py_key ` set K" using Cons.prems by simp
    then have "\<forall>k' \<in> set K. \<not> py_eq k' x"
      using True unfolding py_eq_def by (metis imageI)
    then show ?thesis using True by simp
  next
    case False
    then show ?thesis using Cons by auto
  qed
qed

lemma counter_closed_form:
  "foldl (\<lambda>d x. count_key x d) [] xs = map (\<lambda>k. (k, occurrences k xs)) (firsts xs)"
proof (induction xs rule: rev_induct)
  case Nil show ?case by simp
next
  case (snoc x xs)
  have "foldl (\<lambda>d x. count_key x d) [] (xs @ [x])
        = count_key x (map (\<lambda>k. (k, occurrences k xs)) (firsts xs))"
    by (simp add: snoc.IH)
  also have "\<dots> = map (\<lambda>k. (k, occurrences k (xs @ [x]))) (firsts (xs @ [x]))"
  proof (cases "\<exists>y \<in> set xs. py_eq y x")
    case True
    then have "\<exists>k \<in> set (firsts xs). py_eq k x"
      using firsts_covers py_eq_trans by blast
    then show ?thesis
      using True by (simp add: count_key_map [OF firsts_distinct] firsts_snoc occurrences_snoc py_eq_sym)
  next
    case False
    then have n: "\<not> (\<exists>k \<in> set (firsts xs). py_eq k x)"
      using set_firsts_subset by blast
    have "occurrences x xs = 0" using False by (simp add: occurrences_zero)
    moreover have "\<forall>k \<in> set (firsts xs). \<not> py_eq x k" using n by (simp add: py_eq_sym)
    ultimately show ?thesis
      using False n by (simp add: count_key_map [OF firsts_distinct] firsts_snoc occurrences_snoc)
  qed
  finally show ?case .
qed

section \<open>Lemmas on reading the payload\<close>

lemma py_get_is_dict: "py_get p k d = Inr v \<Longrightarrow> is_dict p"
  by (cases p) auto

lemma py_get_None: "py_get p k PNone = Inr v \<Longrightarrow> v = get_field k p"
  by (cases p) (auto split: option.splits)

lemma py_get_items: "py_get p k (PList []) = Inr v \<Longrightarrow> items_of v = items_of (get_field k p)"
  by (cases p) (auto split: option.splits)

lemma py_index_field: "py_index p k = Inr v \<Longrightarrow> v = get_field k p"
  by (cases p) (auto split: option.splits)

lemma py_iter_dicts:
  assumes "py_iter v = Inr xs" and "list_all is_dict xs"
  shows "xs = items_of v"
proof (cases v)
  case (PStr s)
  with assms show ?thesis by (cases s) auto
next
  case (PDict kvs)
  with assms show ?thesis by (cases kvs) auto
qed (use assms in auto)

lemma falsy_items: "\<not> truthy v \<Longrightarrow> items_of v = []"
  by (cases v) auto

lemma map_exn_all:
  assumes "map_exn f xs = Inr ys" and "\<And>x y. f x = Inr y \<Longrightarrow> P x"
  shows "list_all P xs"
  using assms(1)
proof (induction xs arbitrary: ys)
  case Nil show ?case by simp
next
  case (Cons x xs)
  then show ?case using assms(2) by (auto simp: bind_exn_Inr_iff)
qed

lemma map_exn_map:
  assumes "map_exn f xs = Inr ys" and "\<And>x y. f x = Inr y \<Longrightarrow> y = g x"
  shows "ys = map g xs"
  using assms(1)
proof (induction xs arbitrary: ys)
  case Nil then show ?case by simp
next
  case (Cons x xs)
  then show ?case using assms(2) by (auto simp: bind_exn_Inr_iff)
qed

lemma collect_years_pure:
  assumes "collect_years papers = Inr years"
  shows "list_all is_dict papers"
    and "years = filter truthy (map (get_field ''publication_year'') papers)"
proof -
  from assms obtain ys
    where m: "map_exn (\<lambda>paper. py_get paper ''publication_year'' PNone) papers = Inr ys"
      and y: "years = filter truthy ys"
    by (auto simp: collect_years_def bind_exn_Inr_iff)
  show "list_all is_dict papers"
    by (rule map_exn_all [OF m]) (rule py_get_is_dict)
  have "ys = map (get_field ''publication_year'') papers"
    by (rule map_exn_map [OF m]) (rule py_get_None)
  then show "years = filter truthy (map (get_field ''publication_year'') papers)"
    using y by simp
qed

lemma institution_names_pure:
  assumes "institution_names inst = Inr ns"
  shows "ns = authorship_institutions inst"
proof (cases "truthy (get_field ''institutions'' inst)")
  case True
  from assms obtain present where p: "py_get inst ''institutions'' PNone = Inr present"
    by (auto simp: institution_names_def bind_exn_Inr_iff)
  then have pf: "present = get_field ''institutions'' inst" by (rule py_get_None)
  with True assms p obtain v entries
    where v: "py_get inst ''institutions'' (PList []) = Inr v"
      and e: "py_iter v = Inr entries"
      and m: "map_exn (\<lambda>i. py_get i ''display_name'' PNone) entries = Inr ns"
    by (auto simp: institution_names_def bind_exn_Inr_iff)
  have "list_all is_dict entries"
    by (rule map_exn_all [OF m]) (rule py_get_is_dict)
  then have "entries = items_of v" using e by (simp add: py_iter_dicts)
  then have "entries = items_of (get_field ''institutions'' inst)"
    using py_get_items [OF v] by simp
  moreover have "ns = map (get_field ''display_name'') entries"
    by (rule map_exn_map [OF m]) (rule py_get_None)
  ultimately show ?thesis by (simp add: authorship_institutions_def)
next
  case False
  from assms obtain present where p: "py_get inst ''institutions'' PNone = Inr present"
    by (auto simp: institution_names_def bind_exn_Inr_iff)
  then have pf: "present = get_field ''institutions'' inst" by (rule py_get_None)
  with False assms p have "ns = []"
    by (auto simp: institution_names_def bind_exn_Inr_iff)
  then show ?thesis using False by (simp add: authorship_institutions_def falsy_items)
qed

lemma institution_names_is_dict: "institution_names inst = Inr ns \<Longrightarrow> is_dict inst"
  by (auto simp: institution_names_def bind_exn_Inr_iff dest: py_get_is_dict)

lemma author_names_is_dict: "author_names a = Inr ns \<Longrightarrow> is_dict a"
  by (auto simp: author_names_def bind_exn_Inr_iff dest: py_get_is_dict)

lemma author_names_pure:
  assumes "author_names a = Inr ns"
  shows "ns = authorship_author a"
proof -
  from assms obtain present where p: "py_get a ''author'' PNone = Inr present"
    by (auto simp: author_names_def bind_exn_Inr_iff)
  then have pf: "present = get_field ''author'' a" by (rule py_get_None)
  show ?thesis
  proof (cases "truthy present")
    case True
    with assms p obtain au n where i: "py_index a ''author'' = Inr au"
      and g: "py_get au ''display_name'' PNone = Inr n" and ns: "ns = [n]"
      by (auto simp: author_names_def bind_exn_Inr_iff)
    have "au = get_field ''author'' a" using i by (rule py_index_field)
    moreover have "n = get_field ''display_name'' au" using g by (rule py_get_None)
    ultimately show ?thesis using True pf ns by (simp add: authorship_author_def)
  next
    case False
    with assms p have "ns = []" by (auto simp: author_names_def bind_exn_Inr_iff)
    then show ?thesis using False pf by (simp add: authorship_author_def)
  qed
qed

lemma paper_affiliations_pure:
  assumes "paper_affiliations p = Inr aff"
  shows "fst aff = concat (map authorship_institutions (items_of (get_field ''authorships'' p)))"
    and "snd aff = concat (map authorship_author (items_of (get_field ''authorships'' p)))"
proof -
  from assms obtain a1 insts iss a2 auths ass
    where g1: "py_get p ''authorships'' (PList []) = Inr a1"
      and i1: "py_iter a1 = Inr insts"
      and m1: "map_exn institution_names insts = Inr iss"
      and g2: "py_get p ''authorships'' (PList []) = Inr a2"
      and i2: "py_iter a2 = Inr auths"
      and m2: "map_exn author_names auths = Inr ass"
      and aff: "aff = (concat iss, concat ass)"
    by (auto simp: paper_affiliations_def bind_exn_Inr_iff)
  have "list_all is_dict insts"
    by (rule map_exn_all [OF m1]) (rule institution_names_is_dict)
  then have "insts = items_of a1" using i1 by (simp add: py_iter_dicts)
  then have e1: "insts = items_of (get_field ''authorships'' p)"
    using py_get_items [OF g1] by simp
  have "list_all is_dict auths"
    by (rule map_exn_all [OF m2]) (rule author_names_is_dict)
  then have "auths = items_of a2" using i2 by (simp add: py_iter_dicts)
  then have e2: "auths = items_of (get_field ''authorships'' p)"
    using py_get_items [OF g2] by simp
  have "iss = map authorship_institutions insts"
    by (rule map_exn_map [OF m1]) (rule institution_names_pure)
  then show "fst aff = concat (map authorship_institutions (items_of (get_field ''authorships'' p)))"
    using aff e1 by simp
  have "ass = map authorship_author auths"
    by (rule map_exn_map [OF m2]) (rule author_names_pure)
  then show "snd aff = concat (map authorship_author (items_of (get_field ''authorships'' p)))"
    using aff e2 by simp
qed

lemma concat_map_concat: "concat (map (\<lambda>x. concat (map f (g x))) xs) = concat (map f (concat (map g xs)))"
  by (induction xs) auto

lemma extract_affiliations_pure:
  assumes "extract_affiliations papers = Inr aff"
  shows "fst aff = concat (map authorship_institutions
                     (concat (map (\<lambda>p. items_of (get_field ''authorships'' p)) papers)))"
    and "snd aff = concat (map authorship_author
                     (concat (map (\<lambda>p. items_of (get_field ''authorships'' p)) papers)))"
proof -
  from assms obtain ps where m: "map_exn paper_affiliations papers = Inr ps"
    and aff: "aff = (concat (map fst ps), concat (map snd ps))"
    by (auto simp: extract_affiliations_def bind_exn_Inr_iff)
  have "map fst ps = map (\<lambda>p. concat (map authorship_institutions (items_of (get_field ''authorships'' p)))) papers"
    using m by (auto simp: map_exn_Inr_iff list_all2_conv_all_nth paper_affiliations_pure(1) intro!: nth_equalityI)
  then show "fst aff = concat (map authorship_institutions
                     (concat (map (\<lambda>p. items_of (get_field ''authorships'' p)) papers)))"
    using aff by (simp add: concat_map_concat)
  have "map snd ps = map (\<lambda>p. concat (map authorship_author (items_of (get_field ''authorships'' p)))) papers"
    using m by (auto simp: map_exn_Inr_iff list_all2_conv_all_nth paper_affiliations_pure(2) intro!: nth_equalityI)
  then show "snd aff = concat (map authorship_author
                     (concat (map (\<lambda>p. items_of (get_field ''authorships'' p)) papers)))"
    using aff by (simp add: concat_map_concat)
qed

lemma build_stats_pure:
  assumes "build_stats r = Inr st"
  obtains yearly by_year inst_counts author_counts
  where "Counter (filter truthy (record_years r)) = Inr yearly"
    and "py_sorted yearly = Inr by_year"
    and "yearly_trends st = dict_of by_year"
    and "Counter (institution_list r) = Inr inst_counts"
    and "top_institutions st = most_common 5 inst_counts"
    and "Counter (author_list r) = Inr author_counts"
    and "top_authors st = most_common 5 author_counts"
proof -
  from assms obtain results papers years yearly aff inst_counts author_counts by_year
    where g: "py_get r ''results'' (PList []) = Inr results"
      and i: "py_iter results = Inr papers"
      and cy: "collect_years papers = Inr years"
      and c1: "Counter years = Inr yearly"
      and ea: "extract_affiliations papers = Inr aff"
      and c2: "Counter (fst aff) = Inr inst_counts"
      and c3: "Counter (snd aff) = Inr author_counts"
      and s: "py_sorted yearly = Inr by_year"
      and y: "yearly_trends st = dict_of by_year"
      and ti: "top_institutions st = most_common 5 inst_counts"
      and ta: "top_authors st = most_common 5 author_counts"
    by (rule build_stats_Inr)
  have "papers = items_of results"
    using i collect_years_pure(1) [OF cy] by (simp add: py_iter_dicts)
  then have p: "papers = result_records r"
    using py_get_items [OF g] by (simp add: result_records_def)
  have "years = filter truthy (record_years r)"
    using collect_years_pure(2) [OF cy] p by (simp add: record_years_def)
  moreover have "fst aff = institution_list r"
    using extract_affiliations_pure(1) [OF ea] p
    by (simp add: institution_list_def authorship_entries_def)
  moreover have "snd aff = author_list r"
    using extract_affiliations_pure(2) [OF ea] p
    by (simp add: author_list_def authorship_entries_def)
  ultimately show ?thesis
    using that c1 c2 c3 s y ti ta by simp
qed

section \<open>Lemmas on sorted items\<close>

lemma Counter_counted: "Counter xs = Inr c \<Longrightarrow> c = counted xs"
  by (auto simp: Counter_def counted_def counter_closed_form split: if_splits)

lemma counted_keys: "map fst (counted xs) = firsts xs"
  by (simp add: counted_def comp_def)

lemma counted_distinct_keys: "distinct (map (\<lambda>kc. py_key (fst kc)) (counted xs))"
  using firsts_distinct [of xs] by (simp add: counted_def comp_def)

lemma counted_entry:
  "kc \<in> set (counted xs) \<Longrightarrow> fst kc \<in> set xs \<and> snd kc = occurrences (fst kc) xs"
  using set_firsts_subset [of xs] by (auto simp: counted_def)

lemma counted_covers:
  assumes "x \<in> set xs"
  shows "\<exists>kc \<in> set (counted xs). py_eq (fst kc) x"
proof -
  obtain k where "k \<in> set (firsts xs)" "py_eq k x"
    using firsts_covers [OF assms] by blast
  then show ?thesis by (auto simp: counted_def)
qed

lemma dict_set_new:
  "py_key x \<notin> (\<lambda>kc. py_key (fst kc)) ` set d \<Longrightarrow> dict_set x v d = d @ [(x, v)]"
  by (induction d) (auto simp: py_eq_def)

lemma dict_of_distinct:
  "distinct (map (\<lambda>kc. py_key (fst kc)) pairs) \<Longrightarrow> dict_of pairs = pairs"
proof (induction pairs rule: rev_induct)
  case Nil
  show ?case by (simp add: dict_of_def)
next
  case (snoc kv pairs)
  then have "dict_of pairs = pairs" by simp
  moreover have "py_key (fst kv) \<notin> (\<lambda>kc. py_key (fst kc)) ` set pairs"
    using snoc.prems by auto
  ultimately show ?case
    using dict_set_new [of "fst kv" pairs "snd kv"] by (simp add: dict_of_def)
qed

lemma py_sorted_set: "py_sorted items = Inr out \<Longrightarrow> set out = set items"
  by (auto simp: py_sorted_def split: if_splits)

lemma py_sorted_distinct_keys:
  assumes "py_sorted items = Inr out" and "distinct (map (\<lambda>kc. py_key (fst kc)) items)"
  shows "distinct (map (\<lambda>kc. py_key (fst kc)) out)"
proof -
  from assms(2) have "distinct items" and "inj_on (\<lambda>kc. py_key (fst kc)) (set items)"
    by (simp_all add: distinct_map)
  moreover from assms(1) have "distinct out \<longleftrightarrow> distinct items"
    by (auto simp: py_sorted_def split: if_splits)
  ultimately show ?thesis
    using py_sorted_set [OF assms(1)] by (simp add: distinct_map)
qed

lemma is_number_key: "is_number v \<Longrightarrow> py_key v = PInt (num_of v)"
  by (cases v) auto

lemma is_string_key: "is_string v \<Longrightarrow> py_key v = PStr (str_of v)"
  by (cases v) auto

lemma sorted_pairs_strict:
  fixes f :: "pyval \<Rightarrow> 'a :: linorder"
  assumes s: "sorted (map (\<lambda>kc. (f (fst kc), snd kc)) (out :: (pyval \<times> nat) list))"
    and d: "distinct (map (\<lambda>kc. py_key (fst kc)) out)"
    and k: "\<And>a b. a \<in> set out \<Longrightarrow> b \<in> set out \<Longrightarrow> f (fst a) = f (fst b) \<Longrightarrow> py_key (fst a) = py_key (fst b)"
  shows "sorted_wrt (\<lambda>a b. f a < f b) (map fst out)"
proof -
  have "f (fst (out ! i)) < f (fst (out ! j))" if "i < j" "j < length out" for i j
  proof -
    have "(f (fst (out ! i)), snd (out ! i)) \<le> (f (fst (out ! j)), snd (out ! j))"
      using s that by (simp add: sorted_iff_nth_mono_less)
    then have le: "f (fst (out ! i)) \<le> f (fst (out ! j))"
      by (auto simp: less_eq_prod_def)
    have "py_key (fst (out ! i)) \<noteq> py_key (fst (out ! j))"
      using d that by (auto simp: distinct_conv_nth)
    then have "f (fst (out ! i)) \<noteq> f (fst (out ! j))"
      using k [of "out ! i" "out ! j"] that by auto
    with le show ?thesis by simp
  qed
  then show ?thesis
    by (simp add: sorted_wrt_iff_nth_less)
qed

lemma py_sorted_ascending:
  assumes "py_sorted items = Inr out" and "distinct (map (\<lambda>kc. py_key (fst kc)) items)"
  shows "sorted_wrt py_less (map fst out)"
proof -
  have d: "distinct (map (\<lambda>kc. py_key (fst kc)) out)"
    using assms by (rule py_sorted_distinct_keys)
  have set: "set out = set items" using assms(1) by (rule py_sorted_set)
  consider (short) "length items \<le> 1"
    | (nums) "1 < length items" "list_all (\<lambda>kc. is_number (fst kc)) items"
    | (strs) "1 < length items" "\<not> list_all (\<lambda>kc. is_number (fst kc)) items"
        "list_all (\<lambda>kc. is_string (fst kc)) items"
    using assms(1) by (auto simp: py_sorted_def split: if_splits)
  then show ?thesis
  proof cases
    case short
    then have "out = items" using assms(1) by (simp add: py_sorted_def)
    with short show ?thesis
      by (cases items) (auto simp: length_Suc_conv)
  next
    case nums
    then have o: "out = sort_key (\<lambda>kc. (num_of (fst kc), snd kc)) items"
      using assms(1) by (simp add: py_sorted_def)
    have n: "\<forall>kc \<in> set out. is_number (fst kc)"
      using nums(2) set by (simp add: list_all_iff)
    have "sorted (map (\<lambda>kc. (num_of (fst kc), snd kc)) out)"
      unfolding o by (rule sorted_sort_key)
    then have "sorted_wrt (\<lambda>a b. num_of a < num_of b) (map fst out)"
      using d by (rule sorted_pairs_strict) (use n in \<open>simp add: is_number_key\<close>)
    then have "sorted_wrt (\<lambda>a b. num_of a < num_of b \<and> is_number a \<and> is_number b) (map fst out)"
      using n by (auto simp: sorted_wrt_iff_nth_less)
    then show ?thesis
      by (rule sorted_wrt_mono_rel [rotated]) (simp add: py_less_def)
  next
    case strs
    then have o: "out = sort_key (\<lambda>kc. (str_of (fst kc), snd kc)) items"
      using assms(1) by (simp add: py_sorted_def)
    have n: "\<forall>kc \<in> set out. is_string (fst kc)"
      using strs(3) set by (simp add: list_all_iff)
    have "sorted (map (\<lambda>kc. (str_of (fst kc), snd kc)) out)"
      unfolding o by (rule sorted_sort_key)
    then have "sorted_wrt (\<lambda>a b. str_of a < str_of b) (map fst out)"
      using d by (rule sorted_pairs_strict) (use n in \<open>simp add: is_string_key\<close>)
    then have "sorted_wrt (\<lambda>a b. str_of a < str_of b \<and> is_string a \<and> is_string b) (map fst out)"
      using n by (auto simp: sorted_wrt_iff_nth_less)
    then show ?thesis
      by (rule sorted_wrt_mono_rel [rotated]) (simp add: py_less_def)
  qed
qed

text \<open>The yearly trend of a returned statistics object.\<close>

lemma yearly_trends_structure:
  assumes "build_stats r = Inr st"
  shows "py_sorted (counted (truthy_years r)) = Inr (yearly_trends st)"
proof -
  from assms obtain yearly by_year
    where c: "Counter (filter truthy (record_years r)) = Inr yearly"
      and s: "py_sorted yearly = Inr by_year"
      and y: "yearly_trends st = dict_of by_year"
    by (rule build_stats_pure)
  have yc: "yearly = counted (truthy_years r)"
    using Counter_counted [OF c] by (simp add: truthy_years_def)
  have "distinct (map (\<lambda>kc. py_key (fst kc)) by_year)"
    using s unfolding yc by (rule py_sorted_distinct_keys) (rule counted_distinct_keys)
  then have "dict_of by_year = by_year" by (rule dict_of_distinct)
  then show ?thesis using s y yc by simp
qed

section \<open>Lemmas on the most common entries\<close>

lemma occurrences_py_eq: "py_eq a b \<Longrightarrow> occurrences a xs = occurrences b xs"
  by (simp add: occurrences_def py_eq_def)

lemma first_index_Cons:
  "first_index a (x # xs) = (if py_eq x a then 0 else Suc (first_index a xs))"
  by (simp add: first_index_def)

lemma firsts_order:
  assumes "b \<in> set xs" and "first_index a xs < first_index b xs"
  shows "\<exists>pre kb post. firsts xs = pre @ kb # post \<and> py_eq kb b \<and> (\<exists>ka \<in> set pre. py_eq ka a)"
  using assms
proof (induction xs)
  case Nil
  then show ?case by simp
next
  case (Cons x xs)
  have nb: "\<not> py_eq x b"
    using Cons.prems(2) by (auto simp: first_index_Cons split: if_splits)
  then have b: "b \<in> set xs" using Cons.prems(1) by auto
  show ?case
  proof (cases "py_eq x a")
    case True
    obtain kb where kb: "kb \<in> set (firsts xs)" "py_eq kb b"
      using firsts_covers [OF b] by blast
    have "\<not> py_eq x kb" using nb kb(2) py_eq_trans by blast
    then have "kb \<in> set (filter (\<lambda>y. \<not> py_eq x y) (firsts xs))" using kb(1) by simp
    then obtain p q where "filter (\<lambda>y. \<not> py_eq x y) (firsts xs) = p @ kb # q"
      by (meson split_list)
    then have "firsts (x # xs) = (x # p) @ kb # q" by simp
    moreover have "\<exists>ka \<in> set (x # p). py_eq ka a" using True by auto
    ultimately show ?thesis using kb(2) by blast
  next
    case False
    then have "first_index a xs < first_index b xs"
      using Cons.prems(2) nb by (simp add: first_index_Cons)
    then obtain pre kb post ka where f: "firsts xs = pre @ kb # post"
      and kb: "py_eq kb b" and ka: "ka \<in> set pre" "py_eq ka a"
      using Cons.IH [OF b] by blast
    have "\<not> py_eq x kb" using nb kb py_eq_trans by blast
    moreover have "\<not> py_eq x ka" using False ka(2) py_eq_trans by blast
    ultimately have "firsts (x # xs) =
        (x # filter (\<lambda>y. \<not> py_eq x y) pre) @ kb # filter (\<lambda>y. \<not> py_eq x y) post"
      and "ka \<in> set (x # filter (\<lambda>y. \<not> py_eq x y) pre)"
      using f ka(1) by simp_all
    then show ?thesis using kb ka(2) by blast
  qed
qed

lemma most_common_subset: "set (most_common n items) \<subseteq> set items"
  using set_take_subset [of n "sort_key (\<lambda>kc. - int (snd kc)) items"]
  by (simp add: most_common_def)

lemma most_common_length_eq: "length (most_common n items) = min n (length items)"
  by (simp add: most_common_def min.commute)

lemma most_common_largest:
  assumes "e \<in> set items" and "e \<notin> set (most_common n items)"
    and "t \<in> set (most_common n items)"
  shows "snd e \<le> snd t"
proof -
  let ?S = "sort_key (\<lambda>kc. - int (snd kc)) items"
  have "sorted (map (\<lambda>kc. - int (snd kc)) (take n ?S @ drop n ?S))"
    by (simp add: sorted_sort_key del: sorted_map)
  then have "\<forall>x \<in> set (take n ?S). \<forall>y \<in> set (drop n ?S). - int (snd x) \<le> - int (snd y)"
    by (simp add: sorted_append del: append_take_drop_id)
  moreover have "e \<in> set (drop n ?S)"
  proof -
    have "e \<in> set (take n ?S @ drop n ?S)" using assms(1) by simp
    then show ?thesis using assms(2) unfolding most_common_def set_append by blast
  qed
  moreover have "t \<in> set (take n ?S)" using assms(3) by (simp add: most_common_def)
  ultimately show ?thesis by fastforce
qed

lemma distinct_keys_unique:
  assumes "distinct (map (\<lambda>kc. py_key (fst kc)) S)" and "e \<in> set S" and "e' \<in> set S"
    and "py_eq (fst e) (fst e')"
  shows "e = e'"
proof -
  have "inj_on (\<lambda>kc. py_key (fst kc)) (set S)"
    using assms(1) by (simp add: distinct_map)
  moreover have "py_key (fst e) = py_key (fst e')"
    using assms(4) by (simp add: py_eq_def)
  ultimately show ?thesis
    using assms(2,3) by (auto dest: inj_onD)
qed

lemma first_split_unique:
  assumes "x \<notin> set l1" and "x \<notin> set l2" and "l1 @ x # r1 = l2 @ x # r2"
  shows "l1 = l2"
proof -
  have t: "takeWhile (\<lambda>y. y \<noteq> x) (l @ x # r) = l" if "x \<notin> set l" for l r
    using that by (induction l) auto
  have "takeWhile (\<lambda>y. y \<noteq> x) (l1 @ x # r1) = l1"
    using assms(1) by (rule t)
  moreover have "takeWhile (\<lambda>y. y \<noteq> x) (l2 @ x # r2) = l2"
    using assms(2) by (rule t)
  ultimately show ?thesis using assms(3) by simp
qed

lemma most_common_tie:
  assumes b: "b \<in> set xs"
    and occ: "occurrences a xs = occurrences b xs"
    and first: "first_index a xs < first_index b xs"
    and j: "j < length (most_common n (counted xs))"
    and jb: "py_eq (fst (most_common n (counted xs) ! j)) b"
  shows "\<exists>i<j. py_eq (fst (most_common n (counted xs) ! i)) a"
proof -
  let ?g = "\<lambda>k. (k, occurrences k xs)"
  let ?f = "\<lambda>kc::pyval \<times> nat. - int (snd kc)"
  let ?c = "occurrences b xs"
  let ?P = "\<lambda>y. ?f y = - int ?c"
  define S where "S = sort_key ?f (counted xs)"
  define T where "T = most_common n (counted xs)"
  have T: "T = take n S" by (simp add: T_def S_def most_common_def)
  obtain pre kb post ka where fs: "firsts xs = pre @ kb # post"
    and kb: "py_eq kb b" and ka: "ka \<in> set pre" "py_eq ka a"
    using firsts_order [OF b first] by blast
  define ea where "ea = (ka, ?c)"
  define eb where "eb = (kb, ?c)"
  have gka: "?g ka = ea"
    using occurrences_py_eq [OF ka(2), of xs] occ by (simp add: ea_def)
  have gkb: "?g kb = eb"
    using occurrences_py_eq [OF kb, of xs] by (simp add: eb_def)
  have cx: "counted xs = map ?g pre @ eb # map ?g post"
    using fs gkb by (simp add: counted_def)
  have ea_pre: "ea \<in> set (map ?g pre)" using ka(1) gka by force
  have dk: "distinct (map (\<lambda>kc. py_key (fst kc)) (counted xs))"
    by (rule counted_distinct_keys)
  then have dc: "distinct (counted xs)" by (simp add: distinct_map)
  have dkS: "distinct (map (\<lambda>kc. py_key (fst kc)) S)"
    using dk by (simp add: distinct_map S_def)
  have dS: "distinct S" using dc by (simp add: S_def)
  have ebS: "eb \<in> set S" using cx by (simp add: S_def)
  then obtain P Q where S: "S = P @ eb # Q" by (meson split_list)
  have nP: "eb \<notin> set P" using dS unfolding S by auto
  have "distinct (map ?g pre @ eb # map ?g post)" using dc cx by simp
  then have npre: "eb \<notin> set (map ?g pre)" by auto
  have e1: "filter ?P S = filter ?P P @ eb # filter ?P Q"
    unfolding S by (simp add: eb_def)
  have e2: "filter ?P (counted xs) = filter ?P (map ?g pre) @ eb # filter ?P (map ?g post)"
    unfolding cx by (simp add: eb_def)
  have "filter ?P S = filter ?P (counted xs)"
    unfolding S_def by (rule sort_key_stable)
  then have e3: "filter ?P P @ eb # filter ?P Q
      = filter ?P (map ?g pre) @ eb # filter ?P (map ?g post)"
    using e1 e2 by simp
  have n1: "eb \<notin> set (filter ?P P)" using nP by simp
  have n2: "eb \<notin> set (filter ?P (map ?g pre))" using npre by simp
  have "filter ?P P = filter ?P (map ?g pre)"
    using n1 n2 e3 by (rule first_split_unique)
  moreover have "ea \<in> set (filter ?P (map ?g pre))" using ea_pre by (simp add: ea_def)
  ultimately have "ea \<in> set (filter ?P P)" by simp
  then have "ea \<in> set P" by simp
  then obtain i where i: "i < length P" "P ! i = ea" by (meson in_set_conv_nth)
  have jT: "j < length T" using j by (simp add: T_def)
  then have jS: "j < length S" using T by simp
  have Tj: "T ! j = S ! j" using jT T by simp
  have "S ! j \<in> set S" using jS by (rule nth_mem)
  moreover have "py_eq (fst (S ! j)) (fst eb)"
  proof -
    have "py_eq (fst (S ! j)) b" using jb Tj by (simp add: T_def)
    moreover have "py_eq b kb" using kb by (simp add: py_eq_sym)
    ultimately have "py_eq (fst (S ! j)) kb" by (rule py_eq_trans)
    then show ?thesis by (simp add: eb_def)
  qed
  ultimately have "S ! j = eb"
    using distinct_keys_unique [OF dkS _ ebS] by blast
  moreover have "S ! length P = eb" unfolding S by simp
  ultimately have "S ! j = S ! length P" by simp
  moreover have "length P < length S" unfolding S by simp
  ultimately have jP: "j = length P"
    using nth_eq_iff_index_eq [OF dS jS] by blast
  have "T ! i = S ! i" using i(1) jP jT T by simp
  also have "\<dots> = ea" using i unfolding S by (simp add: nth_append)
  finally have "py_eq (fst (T ! i)) a" using ka(2) by (simp add: ea_def)
  then show ?thesis using i(1) jP by (auto simp: T_def)
qed

section \<open>Lemmas on the top lists\<close>

lemma top_lists_structure:
  assumes "analyze_research_data backend r = Inr st"
  shows "top_institutions st = most_common 5 (counted (institution_list r))"
    and "top_authors st = most_common 5 (counted (author_list r))"
proof -
  from assms obtain st0 cs where b: "build_stats r = Inr st0"
    and st: "st = st0\<lparr>ResearchStats.charts := Some cs\<rparr>"
    by (rule analyze_research_data_Inr)
  from b obtain inst_counts author_counts
    where ci: "Counter (institution_list r) = Inr inst_counts"
      and ti: "top_institutions st0 = most_common 5 inst_counts"
      and ca: "Counter (author_list r) = Inr author_counts"
      and ta: "top_authors st0 = most_common 5 author_counts"
    by (rule build_stats_pure)
  show "top_institutions st = most_common 5 (counted (institution_list r))"
    using Counter_counted [OF ci] ti st by simp
  show "top_authors st = most_common 5 (counted (author_list r))"
    using Counter_counted [OF ca] ta st by simp
qed

lemma most_common_counted_entry:
  assumes "kc \<in> set (most_common n (counted xs))"
  shows "fst kc \<in> set xs \<and> snd kc = occurrences (fst kc) xs"
  using assms most_common_subset counted_entry by blast

lemma most_common_counted_rest:
  assumes "x \<in> set xs"
  shows "(\<exists>kc \<in> set (most_common n (counted xs)). py_eq (fst kc) x)
       \<or> (\<forall>kc \<in> set (most_common n (counted xs)). occurrences x xs \<le> snd kc)"
proof -
  obtain e where e: "e \<in> set (counted xs)" "py_eq (fst e) x"
    using counted_covers [OF assms] by blast
  have occ: "snd e = occurrences x xs"
    using counted_entry [OF e(1)] occurrences_py_eq [OF e(2)] by simp
  show ?thesis
  proof (cases "e \<in> set (most_common n (counted xs))")
    case True
    then show ?thesis using e(2) by blast
  next
    case False
    then have "\<forall>t \<in> set (most_common n (counted xs)). snd e \<le> snd t"
      using most_common_largest [OF e(1)] by blast
    then show ?thesis using occ by simp
  qed
qed

section \<open>Lemmas on the pipeline\<close>

lemma query_openalex_sent:
  "http_sent (snd (query_openalex c w)) = http_sent w @ [openalex_request c]"
  by (simp add: query_openalex_def Let_def split: sum.splits)

lemma query_openalex_chat: "chat_sent (snd (query_openalex c w)) = chat_sent w"
  by (simp add: query_openalex_def Let_def split: sum.splits)

lemma raised_not_Exception: "raised x \<noteq> Inl (Exception m)"
  by (cases x) (simp_all add: raised_def)

lemma analyze_research_data_charts:
  "analyze_research_data bk r = Inr st \<Longrightarrow> \<exists>cs. ResearchStats.charts st = Some cs"
  by (auto simp: analyze_research_data_def bind_exn_Inr_iff)

lemma generate_investment_insights_sent:
  "chat_sent (snd (generate_investment_insights d c w)) = chat_sent w @ [insights_request d c]"
  by (simp add: generate_investment_insights_def Let_def split: sum.splits)

text \<open>The outcome of \<^verbatim>\<open>invoke\<close> by the outcome of each stage in turn.\<close>

lemma invoke_query_fails:
  assumes "fst (query_openalex c w) = Inl e"
  shows "invoke rt c w = (Inl e, snd (query_openalex c w))"
  using assms
  by (cases "query_openalex c w") (simp add: invoke_def query_node_def initial_state_def)

lemma invoke_analyze_fails:
  assumes "fst (query_openalex c w) = Inr r"
    and "analyze_research_data (plotting rt) r = Inl e"
  shows "invoke rt c w = (Inl e, snd (query_openalex c w))"
  using assms
  by (cases "query_openalex c w")
    (simp add: invoke_def query_node_def initial_state_def analyze_node_def bind_exn_def)

lemma invoke_format_fails:
  assumes "fst (query_openalex c w) = Inr r"
    and "analyze_research_data (plotting rt) r = Inr st"
    and "format_insights (container_repr rt) st = Inl e"
  shows "invoke rt c w = (Inl e, snd (query_openalex c w))"
  using assms
  by (cases "query_openalex c w")
    (simp add: invoke_def query_node_def initial_state_def analyze_node_def format_node_def
      bind_exn_def)

lemma invoke_insights_fails:
  assumes "fst (query_openalex c w) = Inr r"
    and "analyze_research_data (plotting rt) r = Inr st"
    and "format_insights (container_repr rt) st = Inr rep"
    and "fst (generate_investment_insights rep c (snd (query_openalex c w))) = Inl e"
  shows "invoke rt c w
           = (Inl e, snd (generate_investment_insights rep c (snd (query_openalex c w))))"
  using assms
  by (cases "query_openalex c w";
      cases "generate_investment_insights rep c (snd (query_openalex c w))")
    (simp add: invoke_def query_node_def initial_state_def analyze_node_def format_node_def
      insights_node_def bind_exn_def)

lemma invoke_succeeds:
  assumes "fst (query_openalex c w) = Inr r"
    and "analyze_research_data (plotting rt) r = Inr st"
    and "format_insights (container_repr rt) st = Inr rep"
    and "fst (generate_investment_insights rep c (snd (query_openalex c w))) = Inr nar"
  shows "invoke rt c w
           = (Inr \<lparr> concept = c, api_response = r, stats = Some st, result = Some rep,
                    investment_insights = Some nar, charts = ResearchStats.charts st \<rparr>,
              snd (generate_investment_insights rep c (snd (query_openalex c w))))"
  using assms
  by (cases "query_openalex c w";
      cases "generate_investment_insights rep c (snd (query_openalex c w))")
    (simp add: invoke_def query_node_def initial_state_def analyze_node_def format_node_def
      insights_node_def bind_exn_def)

lemma run_of_failure:
  "invoke rt c w = (Inl e, w') \<Longrightarrow>
     run rt c b w = ((Some (''Error: '' @ str_exn (wording rt) e), Some [], None), b, w')"
  by (simp add: run_def)

lemma run_of_success:
  "invoke rt c w = (Inr final, w') \<Longrightarrow>
     run rt c b w = ((result final, investment_insights final, State.charts final),
                     b\<lparr>current_state := Some final\<rparr>, w')"
  by (simp add: run_def)

section \<open>Claims\<close>

text \<open>
  C1. Whatever the payload, the statistics that aggregation returns have at most five
  entries in each of \<^verbatim>\<open>top_papers\<close>, \<^verbatim>\<open>top_institutions\<close> and \<^verbatim>\<open>top_authors\<close>.
\<close>

theorem top_lists_at_most_five:
  assumes "analyze_research_data backend r = Inr st"
  shows "length (top_papers st) \<le> 5 \<and> length (top_institutions st) \<le> 5
         \<and> length (top_authors st) \<le> 5"
proof -
  from assms obtain st0 cs where b: "build_stats r = Inr st0"
    and st: "st = st0\<lparr>ResearchStats.charts := Some cs\<rparr>"
    by (rule analyze_research_data_Inr)
  from b obtain results first5 top5 inst_counts author_counts
    where t: "py_take 5 results = Inr first5" and i: "py_iter first5 = Inr top5"
      and m: "map_exn paper_entry top5 = Inr (top_papers st0)"
      and ti: "top_institutions st0 = most_common 5 inst_counts"
      and ta: "top_authors st0 = most_common 5 author_counts"
    by (rule build_stats_Inr)
  have "length (top_papers st0) \<le> 5"
    using py_take_iter_length [OF t i] map_exn_length [OF m] by simp
  then show ?thesis
    by (simp add: st ti ta most_common_length)
qed

theorem top_lists_at_most_five_witness:
  "analyze_research_data ok_plt six_payload = Inr six_stats
   \<and> length (top_papers six_stats) \<le> 5 \<and> length (top_institutions six_stats) \<le> 5
   \<and> length (top_authors six_stats) \<le> 5"
proof -
  have a: "analyze_research_data ok_plt six_payload = Inr six_stats"
    by code_simp
  show ?thesis
    using a top_lists_at_most_five [OF a] by simp
qed

text \<open>
  C2 (as amended). The keys of \<^verbatim>\<open>yearly_trends\<close> are years of records whose year is
  truthy; every such year is equal to one of the keys; the keys stand in strictly
  ascending order; each key is mapped to the number of records whose truthy year equals it.
\<close>

theorem yearly_trends_of_truthy_years:
  assumes "analyze_research_data backend r = Inr st"
  shows "fst ` set (yearly_trends st) \<subseteq> set (truthy_years r)
       \<and> (\<forall>y \<in> set (truthy_years r). \<exists>k \<in> fst ` set (yearly_trends st). py_eq k y)
       \<and> sorted_wrt py_less (map fst (yearly_trends st))
       \<and> (\<forall>kc \<in> set (yearly_trends st). snd kc = occurrences (fst kc) (truthy_years r))"
proof -
  from assms obtain st0 cs where b: "build_stats r = Inr st0"
    and st: "st = st0\<lparr>ResearchStats.charts := Some cs\<rparr>"
    by (rule analyze_research_data_Inr)
  have s: "py_sorted (counted (truthy_years r)) = Inr (yearly_trends st)"
    using yearly_trends_structure [OF b] st by simp
  have set: "set (yearly_trends st) = set (counted (truthy_years r))"
    using s by (rule py_sorted_set)
  have "fst ` set (yearly_trends st) \<subseteq> set (truthy_years r)"
    unfolding set using counted_entry by blast
  moreover have "\<forall>y \<in> set (truthy_years r). \<exists>k \<in> fst ` set (yearly_trends st). py_eq k y"
    unfolding set using counted_covers by blast
  moreover have "sorted_wrt py_less (map fst (yearly_trends st))"
    using s by (rule py_sorted_ascending) (rule counted_distinct_keys)
  moreover have "\<forall>kc \<in> set (yearly_trends st). snd kc = occurrences (fst kc) (truthy_years r)"
    unfolding set using counted_entry by blast
  ultimately show ?thesis by blast
qed

theorem yearly_trends_of_truthy_years_witness:
  "map_sum id yearly_trends (analyze_research_data ok_plt trend_payload)
     = Inr [(PInt 2020, 2), (PInt 2021, 1)]
   \<and> truthy_years trend_payload = [PInt 2020, PInt 2021, PInt 2020]
   \<and> sorted_wrt py_less [PInt 2020, PInt 2021]"
proof -
  have m: "map_sum id yearly_trends (analyze_research_data ok_plt trend_payload)
     = Inr [(PInt 2020, 2), (PInt 2021, 1)]"
    by code_simp
  then obtain st where a: "analyze_research_data ok_plt trend_payload = Inr st"
    and y: "yearly_trends st = [(PInt 2020, 2), (PInt 2021, 1)]"
    by (cases "analyze_research_data ok_plt trend_payload") auto
  have "sorted_wrt py_less (map fst (yearly_trends st))"
    using yearly_trends_of_truthy_years [OF a] by blast
  then have "sorted_wrt py_less [PInt 2020, PInt 2021]"
    using y by simp
  moreover have "truthy_years trend_payload = [PInt 2020, PInt 2021, PInt 2020]"
    by code_simp
  ultimately show ?thesis using m by blast
qed

theorem yearly_trends_defined_years_counterexample:
  "map_sum id yearly_trends (analyze_research_data ok_plt zero_year_payload) = Inr []
   \<and> defined_years zero_year_payload = [PInt 0]"
  by code_simp

text \<open>
  C3. Of two institutions with the same number of occurrences, the one that occurs first
  in the records stands before the other in \<^verbatim>\<open>top_institutions\<close>: wherever the later
  one is listed, the earlier one is listed above it. The same holds of \<^verbatim>\<open>top_authors\<close>.
\<close>

theorem ties_broken_by_first_appearance:
  assumes "analyze_research_data backend r = Inr st"
  shows "(\<forall>a b j. b \<in> set (institution_list r)
            \<and> occurrences a (institution_list r) = occurrences b (institution_list r)
            \<and> first_index a (institution_list r) < first_index b (institution_list r)
            \<and> j < length (top_institutions st) \<and> py_eq (fst (top_institutions st ! j)) b
          \<longrightarrow> (\<exists>i<j. py_eq (fst (top_institutions st ! i)) a))
       \<and> (\<forall>a b j. b \<in> set (author_list r)
            \<and> occurrences a (author_list r) = occurrences b (author_list r)
            \<and> first_index a (author_list r) < first_index b (author_list r)
            \<and> j < length (top_authors st) \<and> py_eq (fst (top_authors st ! j)) b
          \<longrightarrow> (\<exists>i<j. py_eq (fst (top_authors st ! i)) a))"
  unfolding top_lists_structure [OF assms]
  using most_common_tie by blast

theorem ties_broken_by_first_appearance_witness:
  "map_sum id top_institutions (analyze_research_data ok_plt tie_payload)
     = Inr [(PStr ''Zeta'', 1), (PStr ''Alpha'', 1)]
   \<and> institution_list tie_payload = [PStr ''Zeta'', PStr ''Alpha'']
   \<and> (\<exists>i<1. py_eq (fst ([(PStr ''Zeta'', 1), (PStr ''Alpha'', 1 :: nat)] ! i)) (PStr ''Zeta''))"
proof -
  have m: "map_sum id top_institutions (analyze_research_data ok_plt tie_payload)
     = Inr [(PStr ''Zeta'', 1), (PStr ''Alpha'', 1)]"
    by code_simp
  then obtain st where a: "analyze_research_data ok_plt tie_payload = Inr st"
    and t: "top_institutions st = [(PStr ''Zeta'', 1), (PStr ''Alpha'', 1)]"
    by (cases "analyze_research_data ok_plt tie_payload") auto
  have l: "institution_list tie_payload = [PStr ''Zeta'', PStr ''Alpha'']"
    by code_simp
  have "PStr ''Alpha'' \<in> set (institution_list tie_payload)
      \<and> occurrences (PStr ''Zeta'') (institution_list tie_payload)
          = occurrences (PStr ''Alpha'') (institution_list tie_payload)
      \<and> first_index (PStr ''Zeta'') (institution_list tie_payload)
          < first_index (PStr ''Alpha'') (institution_list tie_payload)
      \<and> 1 < length (top_institutions st)
      \<and> py_eq (fst (top_institutions st ! 1)) (PStr ''Alpha'')"
    unfolding l t by (simp add: occurrences_def first_index_def py_eq_def)
  then have "\<exists>i<1. py_eq (fst (top_institutions st ! i)) (PStr ''Zeta'')"
    using ties_broken_by_first_appearance [OF a] by blast
  then show ?thesis using m l t by simp
qed

text \<open>
  C4. Every institution of every authorship entry of every record is counted once per
  listing: each entry of \<^verbatim>\<open>top_institutions\<close> is a listed name with the number of its
  listings, the list holds five names or all of them, and a name that is left out has no
  more listings than any name that is in.
\<close>

theorem institutions_counted_per_listing:
  assumes "analyze_research_data backend r = Inr st"
  shows "(\<forall>kc \<in> set (top_institutions st).
            fst kc \<in> set (institution_list r)
            \<and> snd kc = occurrences (fst kc) (institution_list r))
       \<and> length (top_institutions st) = min 5 (length (firsts (institution_list r)))
       \<and> (\<forall>x \<in> set (institution_list r).
            (\<exists>kc \<in> set (top_institutions st). py_eq (fst kc) x)
            \<or> (\<forall>kc \<in> set (top_institutions st).
                  occurrences x (institution_list r) \<le> snd kc))"
  unfolding top_lists_structure [OF assms]
  using most_common_counted_entry most_common_counted_rest
  by (simp add: most_common_length_eq counted_def)

theorem institutions_counted_per_listing_witness:
  "map_sum id top_institutions (analyze_research_data ok_plt institutions_payload)
     = Inr [(PStr ''A'', 2), (PStr ''B'', 1)]
   \<and> institution_list institutions_payload = [PStr ''A'', PStr ''B'', PStr ''A'']
   \<and> occurrences (PStr ''A'') (institution_list institutions_payload) = 2
   \<and> occurrences (PStr ''B'') (institution_list institutions_payload) = 1"
proof -
  have m: "map_sum id top_institutions (analyze_research_data ok_plt institutions_payload)
     = Inr [(PStr ''A'', 2), (PStr ''B'', 1)]"
    by code_simp
  then obtain st where a: "analyze_research_data ok_plt institutions_payload = Inr st"
    and t: "top_institutions st = [(PStr ''A'', 2), (PStr ''B'', 1)]"
    by (cases "analyze_research_data ok_plt institutions_payload") auto
  have "\<forall>kc \<in> set (top_institutions st).
          snd kc = occurrences (fst kc) (institution_list institutions_payload)"
    using institutions_counted_per_listing [OF a] by blast
  then have "occurrences (PStr ''A'') (institution_list institutions_payload) = 2
     \<and> occurrences (PStr ''B'') (institution_list institutions_payload) = 1"
    unfolding t by simp
  moreover have "institution_list institutions_payload = [PStr ''A'', PStr ''B'', PStr ''A'']"
    by code_simp
  ultimately show ?thesis using m by blast
qed

text \<open>
  C5. For the payload with no records and a reported count of 0, the statistics are
  constructed with all collections empty and the text report of these statistics holds
  every section header with an empty body; but the aggregation does not return them: the
  institutions chart unpacks an empty \<^verbatim>\<open>zip\<close> and raises \<^verbatim>\<open>ValueError\<close>, with any backend.
\<close>

theorem empty_results_aggregation_raises:
  "build_stats (payload 0 []) = Inr empty_stats
   \<and> analyze_research_data ok_plt (payload 0 []) = Inl ValueError
   \<and> (\<forall>bk. isl (analyze_research_data bk (payload 0 [])))
   \<and> format_insights cr empty_stats
       = Inr (join_lines ([title_line, found_line ''0''] @ interest_lines @ papers_lines
                          @ institutions_lines @ authors_lines))"
proof -
  have b: "build_stats (payload 0 []) = Inr empty_stats"
    by (simp add: build_stats_def payload_def bind_exn_def collect_years_def Counter_def
        extract_affiliations_def py_sorted_def dict_of_def most_common_def empty_stats_def)
  have c: "isl (create_visualization_charts bk empty_stats)" for bk
    by (simp add: create_visualization_charts_def bind_exn_def raised_def unpack_zip_def
        empty_stats_def split: sum.splits)
  have "isl (analyze_research_data bk (payload 0 []))" for bk
    using c [of bk] by (cases "create_visualization_charts bk empty_stats")
      (simp_all add: analyze_research_data_def b bind_exn_def)
  moreover have "analyze_research_data ok_plt (payload 0 []) = Inl ValueError"
    by (simp add: analyze_research_data_def b bind_exn_def create_visualization_charts_def
        raised_def unpack_zip_def empty_stats_def ok_plt_def)
  moreover have "str_nat 0 = ''0''" by code_simp
  then have "comma_int 0 = ''0''" by (simp add: comma_int_def group3.simps)
  then have "format_insights cr empty_stats
       = Inr (join_lines ([title_line, found_line ''0''] @ interest_lines @ papers_lines
                          @ institutions_lines @ authors_lines))"
    by (simp add: format_insights_def empty_stats_def bind_exn_def)
  ultimately show ?thesis using b by blast
qed

text \<open>
  C6. A run is all or nothing. Either the four stages succeed in turn and the run returns
  the text report, the narrative and the charts; or the run returns the message of the
  first stage that raised, after \<^verbatim>\<open>Error: \<close>, with an empty narrative and no charts, and
  leaves the bot as it was. When a stage before the insight generator raises, no request
  is sent to the completion service. In particular, when the search endpoint answers with
  a status other than 200, the run returns the error line with that status, and the only
  effect on the world is the one request sent.
\<close>

theorem run_all_or_nothing:
  "((\<exists>r st rep nar cs.
        fst (query_openalex c w) = Inr r
      \<and> analyze_research_data (plotting rt) r = Inr st
      \<and> format_insights (container_repr rt) st = Inr rep
      \<and> fst (generate_investment_insights rep c (snd (query_openalex c w))) = Inr nar
      \<and> ResearchStats.charts st = Some cs
      \<and> fst (run rt c b w) = (Some rep, Some nar, Some cs))
    \<or> (\<exists>e.
        (fst (query_openalex c w) = Inl e
         \<or> (\<exists>r. fst (query_openalex c w) = Inr r
               \<and> analyze_research_data (plotting rt) r = Inl e)
         \<or> (\<exists>r st. fst (query_openalex c w) = Inr r
               \<and> analyze_research_data (plotting rt) r = Inr st
               \<and> format_insights (container_repr rt) st = Inl e)
         \<or> (\<exists>r st rep. fst (query_openalex c w) = Inr r
               \<and> analyze_research_data (plotting rt) r = Inr st
               \<and> format_insights (container_repr rt) st = Inr rep
               \<and> fst (generate_investment_insights rep c (snd (query_openalex c w)))
                   = Inl e))
      \<and> fst (run rt c b w) = (Some (''Error: '' @ str_exn (wording rt) e), Some [], None)
      \<and> fst (snd (run rt c b w)) = b))
   \<and> (\<forall>e. fst (query_openalex c w) = Inl e
         \<or> (\<exists>r. fst (query_openalex c w) = Inr r
               \<and> analyze_research_data (plotting rt) r = Inl e)
         \<or> (\<exists>r st. fst (query_openalex c w) = Inr r
               \<and> analyze_research_data (plotting rt) r = Inr st
               \<and> format_insights (container_repr rt) st = Inl e)
       \<longrightarrow> chat_sent (snd (snd (run rt c b w))) = chat_sent w)
   \<and> (\<forall>response. http_reply w (length (http_sent w)) (openalex_request c) = Inr response
         \<and> status_code response \<noteq> 200
       \<longrightarrow> run rt c b w
             = ((Some (''Error: OpenAlex API request failed with status ''
                       @ str_int (status_code response)), Some [], None),
                b, w\<lparr>http_sent := http_sent w @ [openalex_request c]\<rparr>))"
proof -
  define err :: "exn \<Rightarrow> string option \<times> string option \<times> (string \<times> string) list option"
    where "err e = (Some (''Error: '' @ str_exn (wording rt) e), Some [], None)" for e
  define w1 where "w1 = snd (query_openalex c w)"
  have F: "fst (run rt c b w) = err e \<and> fst (snd (run rt c b w)) = b
            \<and> snd (snd (run rt c b w)) = w'"
    if "invoke rt c w = (Inl e, w')" for e w'
    using run_of_failure [OF that] by (simp add: err_def)
  have A: "(\<exists>r st rep nar cs.
        fst (query_openalex c w) = Inr r
      \<and> analyze_research_data (plotting rt) r = Inr st
      \<and> format_insights (container_repr rt) st = Inr rep
      \<and> fst (generate_investment_insights rep c w1) = Inr nar
      \<and> ResearchStats.charts st = Some cs
      \<and> fst (run rt c b w) = (Some rep, Some nar, Some cs))
    \<or> (\<exists>e.
        (fst (query_openalex c w) = Inl e
         \<or> (\<exists>r. fst (query_openalex c w) = Inr r
               \<and> analyze_research_data (plotting rt) r = Inl e)
         \<or> (\<exists>r st. fst (query_openalex c w) = Inr r
               \<and> analyze_research_data (plotting rt) r = Inr st
               \<and> format_insights (container_repr rt) st = Inl e)
         \<or> (\<exists>r st rep. fst (query_openalex c w) = Inr r
               \<and> analyze_research_data (plotting rt) r = Inr st
               \<and> format_insights (container_repr rt) st = Inr rep
               \<and> fst (generate_investment_insights rep c w1) = Inl e))
      \<and> fst (run rt c b w) = err e
      \<and> fst (snd (run rt c b w)) = b)"
  proof (cases "fst (query_openalex c w)")
    case (Inl e)
    then show ?thesis using F [OF invoke_query_fails [OF Inl]] by blast
  next
    case q: (Inr r)
    show ?thesis
    proof (cases "analyze_research_data (plotting rt) r")
      case (Inl e)
      then show ?thesis using q F [OF invoke_analyze_fails [OF q Inl]] by blast
    next
      case a: (Inr st)
      show ?thesis
      proof (cases "format_insights (container_repr rt) st")
        case (Inl e)
        then show ?thesis using q a F [OF invoke_format_fails [OF q a Inl]] by blast
      next
        case f: (Inr rep)
        show ?thesis
        proof (cases "fst (generate_investment_insights rep c w1)")
          case (Inl e)
          then have "fst (generate_investment_insights rep c (snd (query_openalex c w))) = Inl e"
            by (simp add: w1_def)
          from F [OF invoke_insights_fails [OF q a f this]] Inl q a f
          show ?thesis by blast
        next
          case (Inr nar)
          then have g: "fst (generate_investment_insights rep c (snd (query_openalex c w)))
              = Inr nar"
            by (simp add: w1_def)
          obtain cs where cs: "ResearchStats.charts st = Some cs"
            using analyze_research_data_charts [OF a] by blast
          have "fst (run rt c b w) = (Some rep, Some nar, Some cs)"
            using run_of_success [OF invoke_succeeds [OF q a f g]] cs by simp
          then show ?thesis using q a f Inr cs by blast
        qed
      qed
    qed
  qed
  have B: "chat_sent (snd (snd (run rt c b w))) = chat_sent w"
    if "fst (query_openalex c w) = Inl e
         \<or> (\<exists>r. fst (query_openalex c w) = Inr r
               \<and> analyze_research_data (plotting rt) r = Inl e)
         \<or> (\<exists>r st. fst (query_openalex c w) = Inr r
               \<and> analyze_research_data (plotting rt) r = Inr st
               \<and> format_insights (container_repr rt) st = Inl e)" for e
  proof -
    from that have "invoke rt c w = (Inl e, snd (query_openalex c w))"
      using invoke_query_fails invoke_analyze_fails invoke_format_fails by blast
    then have "snd (snd (run rt c b w)) = snd (query_openalex c w)"
      using F by blast
    then show ?thesis by (simp add: query_openalex_chat)
  qed
  have C: "run rt c b w
             = ((Some (''Error: OpenAlex API request failed with status ''
                       @ str_int (status_code response)), Some [], None),
                b, w\<lparr>http_sent := http_sent w @ [openalex_request c]\<rparr>)"
    if "http_reply w (length (http_sent w)) (openalex_request c) = Inr response
         \<and> status_code response \<noteq> 200" for response
  proof -
    have "query_openalex c w
        = (Inl (Exception (''OpenAlex API request failed with status ''
                           @ str_int (status_code response))),
           w\<lparr>http_sent := http_sent w @ [openalex_request c]\<rparr>)"
      using that by (simp add: query_openalex_def Let_def)
    then have "invoke rt c w
        = (Inl (Exception (''OpenAlex API request failed with status ''
                           @ str_int (status_code response))),
           w\<lparr>http_sent := http_sent w @ [openalex_request c]\<rparr>)"
      using invoke_query_fails [of c w _ rt] by simp
    then show ?thesis
      using run_of_failure by (simp add: str_exn_def)
  qed
  show ?thesis
    using A B C unfolding err_def w1_def by (intro conjI allI impI)
qed

theorem run_all_or_nothing_witness:
  "http_reply (world_of 404 (Inl ''no body'') (Inr ''Invest.''))
       (length (http_sent (world_of 404 (Inl ''no body'') (Inr ''Invest.''))))
       (openalex_request ''graphene'')
     = Inr \<lparr> status_code = 404, json = Inl ''no body'' \<rparr>
   \<and> fst (run plain_runtime ''graphene'' new_bot (world_of 404 (Inl ''no body'') (Inr ''Invest.'')))
     = (Some ''Error: OpenAlex API request failed with status 404'', Some [], None)
   \<and> chat_sent (snd (snd (run plain_runtime ''graphene'' new_bot
                             (world_of 404 (Inl ''no body'') (Inr ''Invest.''))))) = []
   \<and> snd (fst (run plain_runtime ''graphene'' new_bot
                  (world_of 200 (Inr sample_payload) (Inr ''Invest.''))))
     = (Some ''Invest.'', Some ok_charts)
   \<and> fst (run plain_runtime ''graphene'' new_bot
             (world_of 200 (Inr sample_payload) (Inl ''quota exceeded'')))
     = (Some ''Error: Azure OpenAI API call failed: quota exceeded'', Some [], None)"
proof -
  let ?w = "world_of 404 (Inl ''no body'') (Inr ''Invest.'')"
  let ?resp = "\<lparr> status_code = 404, json = Inl ''no body'' \<rparr>"
  have h: "http_reply ?w (length (http_sent ?w)) (openalex_request ''graphene'') = Inr ?resp"
    by (simp add: world_of_def)
  have n: "status_code ?resp \<noteq> 200" by simp
  have s: "str_int (status_code ?resp) = ''404''" by code_simp
  have "\<forall>response. http_reply ?w (length (http_sent ?w)) (openalex_request ''graphene'')
            = Inr response \<and> status_code response \<noteq> 200
       \<longrightarrow> run plain_runtime ''graphene'' new_bot ?w
             = ((Some (''Error: OpenAlex API request failed with status ''
                       @ str_int (status_code response)), Some [], None),
                new_bot, ?w\<lparr>http_sent := http_sent ?w @ [openalex_request ''graphene'']\<rparr>)"
    using run_all_or_nothing [of "''graphene''" ?w plain_runtime new_bot]
    by (elim conjE)
  then have "run plain_runtime ''graphene'' new_bot ?w
             = ((Some (''Error: OpenAlex API request failed with status ''
                       @ str_int (status_code ?resp)), Some [], None),
                new_bot, ?w\<lparr>http_sent := http_sent ?w @ [openalex_request ''graphene'']\<rparr>)"
    using h n by (elim allE [of _ ?resp] impE) (intro conjI)
  then have r: "run plain_runtime ''graphene'' new_bot ?w
             = ((Some ''Error: OpenAlex API request failed with status 404'', Some [], None),
                new_bot, ?w\<lparr>http_sent := http_sent ?w @ [openalex_request ''graphene'']\<rparr>)"
    unfolding s by simp
  have r1: "fst (run plain_runtime ''graphene'' new_bot ?w)
     = (Some ''Error: OpenAlex API request failed with status 404'', Some [], None)"
    unfolding r by simp
  have r2: "chat_sent (snd (snd (run plain_runtime ''graphene'' new_bot ?w))) = []"
    unfolding r by (simp add: world_of_def)
  have ok: "snd (fst (run plain_runtime ''graphene'' new_bot
                  (world_of 200 (Inr sample_payload) (Inr ''Invest.''))))
     = (Some ''Invest.'', Some ok_charts)"
    by code_simp
  have ko: "fst (run plain_runtime ''graphene'' new_bot
             (world_of 200 (Inr sample_payload) (Inl ''quota exceeded'')))
     = (Some ''Error: Azure OpenAI API call failed: quota exceeded'', Some [], None)"
    by code_simp
  show ?thesis using h r1 r2 ok ko by (intro conjI)
qed

text \<open>
  C7. When the endpoint answers, the fetch raises the exception of line 62, whose message
  ends with the status code, exactly when the status is not 200; on status 200 it returns
  the outcome of decoding the body; in both cases it has sent one request.
\<close>

theorem fetch_raises_iff_status_not_200:
  assumes "http_reply w (length (http_sent w)) (openalex_request c) = Inr response"
  shows "(fst (query_openalex c w)
            = Inl (Exception (''OpenAlex API request failed with status ''
                              @ str_int (status_code response)))
          \<longleftrightarrow> status_code response \<noteq> 200)
       \<and> (\<forall>m. fst (query_openalex c w) = Inl (Exception m) \<longrightarrow> status_code response \<noteq> 200)
       \<and> (status_code response = 200 \<longrightarrow> fst (query_openalex c w) = raised (json response))
       \<and> http_sent (snd (query_openalex c w)) = http_sent w @ [openalex_request c]"
  using assms raised_not_Exception [of "json response"]
  by (simp add: query_openalex_def Let_def)

theorem fetch_raises_iff_status_not_200_witness:
  "http_reply (world_of 404 (Inl ''no body'') (Inr ''Invest.'')) 0 (openalex_request ''graphene'')
     = Inr \<lparr> status_code = 404, json = Inl ''no body'' \<rparr>
   \<and> fst (query_openalex ''graphene'' (world_of 404 (Inl ''no body'') (Inr ''Invest.'')))
     = Inl (Exception ''OpenAlex API request failed with status 404'')
   \<and> http_sent (snd (query_openalex ''graphene'' (world_of 404 (Inl ''no body'') (Inr ''Invest.''))))
     = [openalex_request ''graphene'']
   \<and> fst (query_openalex ''graphene'' (world_of 200 (Inr sample_payload) (Inr ''Invest.'')))
     = Inr sample_payload"
proof -
  let ?w = "world_of 404 (Inl ''no body'') (Inr ''Invest.'')"
  let ?resp = "\<lparr> status_code = 404, json = Inl ''no body'' \<rparr>"
  have h: "http_reply ?w (length (http_sent ?w)) (openalex_request ''graphene'') = Inr ?resp"
    by (simp add: world_of_def)
  have n: "status_code ?resp \<noteq> 200" by simp
  have s: "str_int (status_code ?resp) = ''404''" by code_simp
  have i: "(fst (query_openalex ''graphene'' ?w)
            = Inl (Exception (''OpenAlex API request failed with status ''
                              @ str_int (status_code ?resp))))
          = (status_code ?resp \<noteq> 200)"
    using fetch_raises_iff_status_not_200 [OF h] by (rule conjunct1)
  have e: "fst (query_openalex ''graphene'' ?w)
            = Inl (Exception (''OpenAlex API request failed with status ''
                              @ str_int (status_code ?resp)))"
    using iffD2 [OF i n] .
  have e': "fst (query_openalex ''graphene'' ?w)
            = Inl (Exception ''OpenAlex API request failed with status 404'')"
    using e unfolding s by simp
  have t: "http_sent (snd (query_openalex ''graphene'' ?w)) = [openalex_request ''graphene'']"
    using fetch_raises_iff_status_not_200 [OF h] by (simp add: world_of_def)
  have h0: "http_reply ?w 0 (openalex_request ''graphene'') = Inr ?resp"
    by (simp add: world_of_def)
  have ok: "fst (query_openalex ''graphene'' (world_of 200 (Inr sample_payload) (Inr ''Invest.'')))
     = Inr sample_payload"
    by (simp add: query_openalex_def world_of_def raised_def Let_def)
  show ?thesis using h0 e' t ok by (intro conjI)
qed

text \<open>
  C8 (as amended). For statistics whose top lists are not empty: chart rendering returns
  charts only if every call of the backend succeeded, and then the charts are the three
  rendered images; if it raises, the exception is the one a call of the backend raised,
  with its message, unchanged.
\<close>

theorem chart_failure_propagates_unchanged:
  assumes "top_institutions st \<noteq> []" and "top_authors st \<noteq> []"
  shows "(\<forall>cs. create_visualization_charts bk st = Inr cs \<longrightarrow>
            style_use bk = Inr () \<and> (\<forall>c. figure bk c = Inr ())
            \<and> (\<forall>c. \<exists>img. render bk c (fst (chart_data c st)) (snd (chart_data c st)) = Inr img
                          \<and> map_of cs (chart_key c) = Some img))
       \<and> (\<forall>e. create_visualization_charts bk st = Inl e \<longrightarrow>
            (\<exists>m. e = Foreign m
               \<and> (style_use bk = Inl m \<or> (\<exists>c. figure bk c = Inl m)
                   \<or> (\<exists>c. render bk c (fst (chart_data c st)) (snd (chart_data c st)) = Inl m))))"
proof -
  have u: "unpack_zip (top_institutions st)
             = Inr (map fst (top_institutions st), map snd (top_institutions st))"
     "unpack_zip (top_authors st) = Inr (map fst (top_authors st), map snd (top_authors st))"
    using assms by (simp_all add: unpack_zip_def)
  have r: "raised x = Inr y \<longleftrightarrow> x = Inr y" "raised x = Inl e \<longleftrightarrow> (\<exists>m. x = Inl m \<and> e = Foreign m)"
    for x :: "string + 'a" and y e
    by (cases x; auto simp: raised_def)+
  have ok: "style_use bk = Inr () \<and> (\<forall>c. figure bk c = Inr ())
            \<and> (\<forall>c. \<exists>img. render bk c (fst (chart_data c st)) (snd (chart_data c st)) = Inr img
                          \<and> map_of cs (chart_key c) = Some img)"
    if "create_visualization_charts bk st = Inr cs" for cs
  proof -
    from that obtain t i a where s: "style_use bk = Inr ()"
      and f: "figure bk Trend = Inr ()" "figure bk Institutions = Inr ()"
        "figure bk Authors = Inr ()"
      and rt: "render bk Trend (map fst (yearly_trends st)) (map snd (yearly_trends st)) = Inr t"
      and ri: "render bk Institutions (map fst (top_institutions st))
                 (map snd (top_institutions st)) = Inr i"
      and ra: "render bk Authors (map fst (top_authors st)) (map snd (top_authors st)) = Inr a"
      and cs: "cs = [(''trend'', t), (''institutions'', i), (''authors'', a)]"
      unfolding create_visualization_charts_def bind_exn_Inr_iff u r by auto
    have "figure bk c = Inr ()" for c using f by (cases c) auto
    moreover have "\<exists>img. render bk c (fst (chart_data c st)) (snd (chart_data c st)) = Inr img
                          \<and> map_of cs (chart_key c) = Some img" for c
      using rt ri ra cs by (cases c) auto
    ultimately show ?thesis using s by blast
  qed
  have bad: "\<exists>m. e = Foreign m
               \<and> (style_use bk = Inl m \<or> (\<exists>c. figure bk c = Inl m)
                   \<or> (\<exists>c. render bk c (fst (chart_data c st)) (snd (chart_data c st)) = Inl m))"
    if "create_visualization_charts bk st = Inl e" for e
  proof -
    from that consider m where "style_use bk = Inl m" "e = Foreign m"
      | c m where "figure bk c = Inl m" "e = Foreign m"
      | m where "render bk Trend (map fst (yearly_trends st)) (map snd (yearly_trends st)) = Inl m"
          "e = Foreign m"
      | m where "render bk Institutions (map fst (top_institutions st))
                 (map snd (top_institutions st)) = Inl m" "e = Foreign m"
      | m where "render bk Authors (map fst (top_authors st)) (map snd (top_authors st)) = Inl m"
          "e = Foreign m"
      unfolding create_visualization_charts_def bind_exn_Inl_iff u r by auto
    then show ?thesis
    proof cases
      case 3
      then have "render bk Trend (fst (chart_data Trend st)) (snd (chart_data Trend st)) = Inl m"
        by simp
      with 3 show ?thesis by blast
    next
      case 4
      then have "render bk Institutions (fst (chart_data Institutions st))
          (snd (chart_data Institutions st)) = Inl m"
        by simp
      with 4 show ?thesis by blast
    next
      case 5
      then have "render bk Authors (fst (chart_data Authors st))
          (snd (chart_data Authors st)) = Inl m"
        by simp
      with 5 show ?thesis by blast
    qed blast+
  qed
  show ?thesis using ok bad by blast
qed

theorem chart_failure_propagates_unchanged_witness:
  "top_institutions six_stats \<noteq> [] \<and> top_authors six_stats \<noteq> []
   \<and> create_visualization_charts (failing_plt Institutions ''disk full'') six_stats
       = Inl (Foreign ''disk full'')
   \<and> (\<exists>c. render (failing_plt Institutions ''disk full'') c (fst (chart_data c six_stats))
              (snd (chart_data c six_stats)) = Inl ''disk full'')
   \<and> create_visualization_charts ok_plt six_stats = Inr ok_charts"
proof -
  have ne: "top_institutions six_stats \<noteq> []" "top_authors six_stats \<noteq> []"
    by (simp_all add: six_stats_def)
  have f: "create_visualization_charts (failing_plt Institutions ''disk full'') six_stats
       = Inl (Foreign ''disk full'')"
    by code_simp
  have "\<forall>e. create_visualization_charts (failing_plt Institutions ''disk full'') six_stats
            = Inl e \<longrightarrow>
          (\<exists>m. e = Foreign m
             \<and> (style_use (failing_plt Institutions ''disk full'') = Inl m
                \<or> (\<exists>c. figure (failing_plt Institutions ''disk full'') c = Inl m)
                \<or> (\<exists>c. render (failing_plt Institutions ''disk full'') c
                         (fst (chart_data c six_stats)) (snd (chart_data c six_stats)) = Inl m)))"
    using chart_failure_propagates_unchanged [OF ne] by (rule conjunct2)
  then have "\<exists>m. Foreign ''disk full'' = Foreign m
             \<and> (style_use (failing_plt Institutions ''disk full'') = Inl m
                \<or> (\<exists>c. figure (failing_plt Institutions ''disk full'') c = Inl m)
                \<or> (\<exists>c. render (failing_plt Institutions ''disk full'') c
                         (fst (chart_data c six_stats)) (snd (chart_data c six_stats)) = Inl m))"
    using f by (simp only: sum.inject simp_thms)
  then obtain m where m: "Foreign ''disk full'' = Foreign m"
    and dm: "style_use (failing_plt Institutions ''disk full'') = Inl m
            \<or> (\<exists>c. figure (failing_plt Institutions ''disk full'') c = Inl m)
            \<or> (\<exists>c. render (failing_plt Institutions ''disk full'') c
                     (fst (chart_data c six_stats)) (snd (chart_data c six_stats)) = Inl m)"
    by (elim exE conjE) (rule that)
  have me: "''disk full'' = m" using m by (simp only: exn.inject)
  have d: "style_use (failing_plt Institutions ''disk full'') = Inl ''disk full''
            \<or> (\<exists>c. figure (failing_plt Institutions ''disk full'') c = Inl ''disk full'')
            \<or> (\<exists>c. render (failing_plt Institutions ''disk full'') c
                     (fst (chart_data c six_stats)) (snd (chart_data c six_stats))
                   = Inl ''disk full'')"
    using dm by (simp only: me [symmetric])
  have s: "style_use (failing_plt Institutions ''disk full'') = Inr ()"
    by (simp add: failing_plt_def ok_plt_def)
  have g: "figure (failing_plt Institutions ''disk full'') c = Inr ()" for c
    by (simp add: failing_plt_def ok_plt_def)
  have "\<exists>c. render (failing_plt Institutions ''disk full'') c
                     (fst (chart_data c six_stats)) (snd (chart_data c six_stats))
                  = Inl ''disk full''"
    using d unfolding s g by simp
  moreover have "create_visualization_charts ok_plt six_stats = Inr ok_charts"
    by code_simp
  ultimately show ?thesis using ne f by simp
qed

theorem chart_failure_names_no_chart_counterexample:
  "create_visualization_charts (failing_plt Institutions ''disk full'') six_stats
     = Inl (Foreign ''disk full'')
   \<and> create_visualization_charts (failing_plt Authors ''disk full'') six_stats
     = Inl (Foreign ''disk full'')
   \<and> create_visualization_charts (failing_plt Trend ''disk full'') six_stats
     = Inl (Foreign ''disk full'')"
  by code_simp

text \<open>
  C9 (as amended). An authorship entry contributes an author when its \<^verbatim>\<open>author\<close> field
  is truthy, and what it contributes is the \<^verbatim>\<open>display_name\<close> of that field, \<^verbatim>\<open>None\<close>
  when the field has no display name. Each entry of \<^verbatim>\<open>top_authors\<close> is such a
  contribution, with the number of entries that contribute it.
\<close>

theorem authors_collected_when_author_truthy:
  assumes "analyze_research_data backend r = Inr st"
  shows "\<forall>kc \<in> set (top_authors st).
            (\<exists>a \<in> set (authorship_entries r). truthy (get_field ''author'' a)
               \<and> fst kc = get_field ''display_name'' (get_field ''author'' a))
            \<and> snd kc = length (filter (\<lambda>a. truthy (get_field ''author'' a)
                 \<and> py_eq (get_field ''display_name'' (get_field ''author'' a)) (fst kc))
                 (authorship_entries r))"
proof
  fix kc assume "kc \<in> set (top_authors st)"
  then have kc: "fst kc \<in> set (author_list r)" "snd kc = occurrences (fst kc) (author_list r)"
    using most_common_counted_entry unfolding top_lists_structure [OF assms] by blast+
  have "\<exists>a \<in> set (authorship_entries r). truthy (get_field ''author'' a)
          \<and> fst kc = get_field ''display_name'' (get_field ''author'' a)"
    using kc(1) by (auto simp: author_list_def authorship_author_def split: if_splits)
  moreover have "occurrences x (concat (map authorship_author es))
      = length (filter (\<lambda>a. truthy (get_field ''author'' a)
                 \<and> py_eq (get_field ''display_name'' (get_field ''author'' a)) x) es)" for x es
    by (induction es) (auto simp: occurrences_def authorship_author_def)
  ultimately show "(\<exists>a \<in> set (authorship_entries r). truthy (get_field ''author'' a)
               \<and> fst kc = get_field ''display_name'' (get_field ''author'' a))
            \<and> snd kc = length (filter (\<lambda>a. truthy (get_field ''author'' a)
                 \<and> py_eq (get_field ''display_name'' (get_field ''author'' a)) (fst kc))
                 (authorship_entries r))"
    using kc(2) by (simp add: author_list_def)
qed

theorem authors_collected_when_author_truthy_witness:
  "map_sum id top_authors (analyze_research_data ok_plt institutions_payload)
     = Inr [(PStr ''Ann'', 1), (PStr ''Bob'', 1)]
   \<and> (\<exists>a \<in> set (authorship_entries institutions_payload). truthy (get_field ''author'' a)
         \<and> PStr ''Ann'' = get_field ''display_name'' (get_field ''author'' a))"
proof -
  have m: "map_sum id top_authors (analyze_research_data ok_plt institutions_payload)
     = Inr [(PStr ''Ann'', 1), (PStr ''Bob'', 1)]"
    by code_simp
  then obtain st where a: "analyze_research_data ok_plt institutions_payload = Inr st"
    and t: "top_authors st = [(PStr ''Ann'', 1), (PStr ''Bob'', 1)]"
    by (cases "analyze_research_data ok_plt institutions_payload") auto
  have "(PStr ''Ann'', 1) \<in> set (top_authors st)" using t by simp
  then have "\<exists>a \<in> set (authorship_entries institutions_payload). truthy (get_field ''author'' a)
         \<and> fst (PStr ''Ann'', 1::nat) = get_field ''display_name'' (get_field ''author'' a)"
    using authors_collected_when_author_truthy [OF a] by blast
  then show ?thesis using m by simp
qed

theorem author_without_display_name_counterexample:
  "map_sum id top_authors (analyze_research_data ok_plt nameless_author_payload)
     = Inr [(PNone, 1)]
   \<and> present_author_names nameless_author_payload = []"
  by code_simp

text \<open>
  C10. Whether a record counts in \<^verbatim>\<open>yearly_trends\<close> is decided by the truth value of
  its year: no key is falsy, and two payloads whose truthy years agree have the same
  trend, whatever the falsy years of the one and the missing years of the other.
\<close>

theorem yearly_trends_decided_by_truthiness:
  assumes "analyze_research_data backend r = Inr st"
  shows "(\<forall>kc \<in> set (yearly_trends st). truthy (fst kc))
       \<and> (\<forall>backend' r' st'. analyze_research_data backend' r' = Inr st'
              \<and> truthy_years r' = truthy_years r \<longrightarrow> yearly_trends st' = yearly_trends st)"
proof -
  have s: "py_sorted (counted (truthy_years q)) = Inr (yearly_trends t)"
    if "analyze_research_data bk q = Inr t" for bk q t
  proof -
    from that obtain t0 cs where b: "build_stats q = Inr t0"
      and t: "t = t0\<lparr>ResearchStats.charts := Some cs\<rparr>"
      by (rule analyze_research_data_Inr)
    show ?thesis using yearly_trends_structure [OF b] t by simp
  qed
  have "set (yearly_trends st) = set (counted (truthy_years r))"
    using s [OF assms] by (rule py_sorted_set)
  then have "\<forall>kc \<in> set (yearly_trends st). fst kc \<in> set (truthy_years r)"
    using counted_entry by blast
  then have "\<forall>kc \<in> set (yearly_trends st). truthy (fst kc)"
    by (simp add: truthy_years_def)
  moreover have "yearly_trends st' = yearly_trends st"
    if "analyze_research_data backend' r' = Inr st'" "truthy_years r' = truthy_years r"
    for backend' r' st'
    using s [OF that(1)] s [OF assms] that(2) by simp
  ultimately show ?thesis by blast
qed

theorem yearly_trends_decided_by_truthiness_witness:
  "map_sum id yearly_trends (analyze_research_data ok_plt falsy_years_payload)
     = Inr [(PInt 2020, 1)]
   \<and> map_sum id yearly_trends (analyze_research_data ok_plt absent_years_payload)
     = map_sum id yearly_trends (analyze_research_data ok_plt falsy_years_payload)
   \<and> record_years falsy_years_payload = [PInt 0, PStr [], PNone, PBool False, PInt 2020]
   \<and> record_years absent_years_payload = [PNone, PNone, PNone, PNone, PInt 2020]
   \<and> truthy (PInt 2020)"
proof -
  have m: "map_sum id yearly_trends (analyze_research_data ok_plt falsy_years_payload)
     = Inr [(PInt 2020, 1)]"
    by code_simp
  then obtain st where a: "analyze_research_data ok_plt falsy_years_payload = Inr st"
    and y: "yearly_trends st = [(PInt 2020, 1)]"
    by (cases "analyze_research_data ok_plt falsy_years_payload") auto
  have "\<exists>st'. analyze_research_data ok_plt absent_years_payload = Inr st'"
  proof (cases "analyze_research_data ok_plt absent_years_payload")
    case (Inl e)
    then have "isl (analyze_research_data ok_plt absent_years_payload)" by simp
    moreover have "\<not> isl (analyze_research_data ok_plt absent_years_payload)" by code_simp
    ultimately show ?thesis by simp
  qed simp
  then obtain st' where a': "analyze_research_data ok_plt absent_years_payload = Inr st'" ..
  have t: "truthy_years absent_years_payload = truthy_years falsy_years_payload"
    by code_simp
  have c: "(\<forall>kc \<in> set (yearly_trends st). truthy (fst kc))
       \<and> (\<forall>backend' r' st'. analyze_research_data backend' r' = Inr st'
              \<and> truthy_years r' = truthy_years falsy_years_payload
            \<longrightarrow> yearly_trends st' = yearly_trends st)"
    using yearly_trends_decided_by_truthiness [OF a] .
  then have "yearly_trends st' = yearly_trends st" using a' t by blast
  then have "map_sum id yearly_trends (analyze_research_data ok_plt absent_years_payload)
     = map_sum id yearly_trends (analyze_research_data ok_plt falsy_years_payload)"
    using a a' by simp
  moreover have "truthy (PInt 2020)" using c y by simp
  moreover have "record_years falsy_years_payload = [PInt 0, PStr [], PNone, PBool False, PInt 2020]"
    by code_simp
  moreover have "record_years absent_years_payload = [PNone, PNone, PNone, PNone, PInt 2020]"
    by code_simp
  ultimately show ?thesis using m by blast
qed

end
